theory Spec2Isabelle
  imports Main "HOL-Library.AList"
begin

section \<open>Values, errors and entity types\<close>

text \<open>
  A value is Python's \<open>None\<close>, an integer or a string. Keyword arguments
  (\<^verbatim>\<open>**kwargs\<close>, \<^verbatim>\<open>**filters\<close>) are association lists in the order in which Python
  iterates the dictionary.
\<close>

datatype val = VNone | VInt int | VStr string

type_synonym kwargs = "(string \<times> val) list"

text \<open>
  The exceptions that can leave an operation. \<open>Exception\<close> is the plain
  \<^verbatim>\<open>raise Exception("...")\<close> of \<^verbatim>\<open>base_model.py\<close>; \<open>AttributeError\<close> is raised by
  \<^verbatim>\<open>_filter_conditions\<close> and \<^verbatim>\<open>select_related\<close>, and by Python on assigning to an
  attribute that cannot be written; \<open>TypeError\<close> by the declarative constructor on a
  keyword that is no attribute of the class and by the mapper on assigning something that
  is no collection to a collection; \<open>InvalidRequestError\<close> by the mapper on comparing a
  collection with a value; \<open>IntegrityError\<close> by the database on a violated constraint;
  \<open>DBAPIError\<close> (of which \<open>DataError\<close> is a kind) by the driver or the database on a
  value that is not of the column's type or outside its range; \<open>KeyError\<close> by the mapper
  on the name of an attribute it does not map.
\<close>

datatype error =
    Exception string
  | AttributeError string
  | TypeError string
  | KeyError string
  | IntegrityError
  | DBAPIError
  | InvalidRequestError

text \<open>
  The types of columns: a 32-bit \<open>Integer\<close>, which is also the type of the primary key
  \<^verbatim>\<open>id\<close>, and a \<open>String\<close> of any length. Columns are nullable. A value fits a
  column when the driver and the database take it for that column: \<open>None\<close> always, an
  integer within 32 bits for an \<open>Integer\<close>, a string without a zero byte for a
  \<open>String\<close>.
\<close>

datatype col_type = Integer | String

definition in_range :: "int \<Rightarrow> bool" where
  "in_range n \<longleftrightarrow> - (2 ^ 31) \<le> n \<and> n < 2 ^ 31"

fun fits :: "col_type \<Rightarrow> val \<Rightarrow> bool" where
  "fits _ VNone = True"
| "fits Integer (VInt n) = in_range n"
| "fits String (VStr s) = (CHR 0x00 \<notin> set s)"
| "fits _ _ = False"

text \<open>
  What a name is on an entity class, for the names for which \<^verbatim>\<open>hasattr(cls, name)\<close>
  holds: a mapped column; a collection (a to-many relation such as \<^verbatim>\<open>posts\<close>); a class
  attribute or method, with its value when that is a value a caller can pass (as
  \<^verbatim>\<open>_orm_instance = None\<close>, line 136) and without one otherwise (a method, the manager);
  or an attribute that Python refuses to assign on an instance, with the error it raises
  (as \<^verbatim>\<open>__weakref__\<close>). The relations of the entity types considered are
  collections; a relation to a single object is not among the kinds. One more kind is no
  attribute of the class at all: a name under which the mapper keeps its own state on
  every instance (as \<^verbatim>\<open>_sa_instance_state\<close>), with the error that the mapper's next
  use of the instance raises once the name has been assigned.
\<close>

datatype attr_kind =
    Column col_type
  | Collection
  | ClassAttr "val option"
  | Unwritable error
  | Internal error

text \<open>
  An entity type (a mapped subclass of \<^verbatim>\<open>BaseORM\<close>): its \<^verbatim>\<open>__name__\<close> and its
  attributes. The primary key \<^verbatim>\<open>id\<close> (line 132) is an integer column of every entity
  type.
\<close>

record model =
  model_name :: string
  attributes :: "(string \<times> attr_kind) list"

definition kind_of :: "model \<Rightarrow> string \<Rightarrow> attr_kind option" where
  "kind_of M a = (if a = ''id'' then Some (Column Integer) else map_of (attributes M) a)"

definition hasattr :: "model \<Rightarrow> string \<Rightarrow> bool" where
  "hasattr M a =
     (case kind_of M a of None \<Rightarrow> False | Some (Internal _) \<Rightarrow> False | Some _ \<Rightarrow> True)"

text \<open>The mapped columns other than the primary key.\<close>

definition columns :: "model \<Rightarrow> string list" where
  "columns M =
     filter (\<lambda>a. a \<noteq> ''id'' \<and> (case kind_of M a of Some (Column _) \<Rightarrow> True | _ \<Rightarrow> False))
       (map fst (attributes M))"

definition quoted :: "string \<Rightarrow> string" where
  "quoted s = CHR 0x27 # s @ [CHR 0x27]"

section \<open>The session manager\<close>

datatype flavor = Async | Sync

record engine =
  url :: string
  pool_size :: nat
  max_overflow :: nat
  pool_timeout :: nat
  pool_recycle :: nat

record sessionmaker =
  bind :: engine
  expire_on_commit :: bool
  session_class :: flavor

record DataBaseSessionManager =
  async_engine :: "engine option"
  async_sessionmaker :: "sessionmaker option"
  sync_engine :: "engine option"
  sync_sessionmaker :: "sessionmaker option"

definition create_engine :: "string \<Rightarrow> engine" where
  "create_engine u =
     \<lparr>url = u, pool_size = 5, max_overflow = 2, pool_timeout = 10, pool_recycle = 600\<rparr>"

text \<open>\<^verbatim>\<open>DataBaseSessionManager.__init__\<close> (lines 201-225).\<close>

definition DataBaseSessionManager_init :: "string \<Rightarrow> string \<Rightarrow> DataBaseSessionManager" where
  "DataBaseSessionManager_init async_database_url sync_database_url =
     \<lparr>async_engine = Some (create_engine async_database_url),
      async_sessionmaker =
        Some \<lparr>bind = create_engine async_database_url, expire_on_commit = False, session_class = Async\<rparr>,
      sync_engine = Some (create_engine sync_database_url),
      sync_sessionmaker =
        Some \<lparr>bind = create_engine sync_database_url, expire_on_commit = False, session_class = Sync\<rparr>\<rparr>"

text \<open>
  \<^verbatim>\<open>DataBaseSessionManager.close\<close> (lines 227-236): each engine that is still there is
  disposed, and the engine and its sessionmaker are set to \<open>None\<close>.
\<close>

definition close :: "DataBaseSessionManager \<Rightarrow> DataBaseSessionManager" where
  "close m =
     (let m1 = (if async_engine m \<noteq> None
                then m\<lparr>async_engine := None, async_sessionmaker := None\<rparr> else m)
      in (if sync_engine m1 \<noteq> None
          then m1\<lparr>sync_engine := None, sync_sessionmaker := None\<rparr> else m1))"

text \<open>
  Session acquisition, up to the \<^verbatim>\<open>yield\<close>: \<^verbatim>\<open>DataBaseSessionManager.async_session\<close>
  (lines 254-256) and \<^verbatim>\<open>sync_session\<close> (lines 267-269). The session that is yielded is
  represented by the class the sessionmaker instantiates.
\<close>

definition async_session :: "DataBaseSessionManager \<Rightarrow> error + flavor" where
  "async_session m =
     (case async_sessionmaker m of
        None \<Rightarrow> Inl (Exception ''DataBaseSessionManager is not initialized'')
      | Some sm \<Rightarrow> Inr (session_class sm))"

definition sync_session :: "DataBaseSessionManager \<Rightarrow> error + flavor" where
  "sync_session m =
     (case sync_sessionmaker m of
        None \<Rightarrow> Inl (Exception ''DataBaseSessionManager is not initialized'')
      | Some sm \<Rightarrow> Inr (session_class sm))"

text \<open>
  \<^verbatim>\<open>BaseORM._async_session\<close> (lines 169-174) and \<^verbatim>\<open>BaseORM._sync_session\<close>
  (lines 177-182), up to the \<^verbatim>\<open>yield\<close>; the argument is the class attribute
  \<^verbatim>\<open>_db_manager\<close>.
\<close>

definition BaseORM_async_session :: "DataBaseSessionManager option \<Rightarrow> error + flavor" where
  "BaseORM_async_session db_manager =
     (case db_manager of
        None \<Rightarrow> Inl (Exception ''DataBaseSessionManager is not initialized for Base.'')
      | Some m \<Rightarrow> async_session m)"

definition BaseORM_sync_session :: "DataBaseSessionManager option \<Rightarrow> error + flavor" where
  "BaseORM_sync_session db_manager =
     (case db_manager of
        None \<Rightarrow> Inl (Exception ''DataBaseSessionManager is not initialized for Base.'')
      | Some m \<Rightarrow> sync_session m)"

text \<open>
  The source has no exception class of its own for the uninitialised manager: it raises
  \<^verbatim>\<open>Exception\<close> with one of two messages. These are the errors meant by
  \<open>UninitializedError\<close>.
\<close>

definition UninitializedError :: "error \<Rightarrow> bool" where
  "UninitializedError e \<longleftrightarrow>
     e = Exception ''DataBaseSessionManager is not initialized'' \<or>
     e = Exception ''DataBaseSessionManager is not initialized for Base.''"

definition fails_uninitialized :: "error + 'a \<Rightarrow> bool" where
  "fails_uninitialized r = (case r of Inl e \<Rightarrow> UninitializedError e | Inr _ \<Rightarrow> False)"

section \<open>The table, the process state and the session scope\<close>

text \<open>
  A stored row has its primary key, one value for every mapped column and, for each
  collection, the primary keys of the rows of other tables that refer to it. An instance
  is the Python object the session hands out: the loaded columns and, beside them,
  whatever was set on the object that is no column (\<^verbatim>\<open>instance.__dict__\<close> entries that
  the mapper does not persist).
\<close>

record row =
  id_col :: int
  cols :: kwargs
  rels :: "(string \<times> int list) list"

record model_instance =
  inst_id :: int
  inst_cols :: kwargs
  inst_dict :: kwargs

text \<open>An object under construction or modification: its \<^verbatim>\<open>id\<close> attribute is any value.\<close>

record transient =
  t_id :: val
  t_cols :: kwargs
  t_dict :: kwargs

datatype statement = Select kwargs | SelectCount

datatype event =
    Open flavor
  | Add
  | Get
  | Delete
  | Merge
  | Execute statement
  | Commit
  | Rollback
  | Refresh
  | Close

text \<open>
  The state of the process and of the database: the class attribute
  \<^verbatim>\<open>BaseORM._db_manager\<close>, the committed rows of the bound entity's table in storage
  order, the next value of the table's identity sequence, and the calls the sessions have
  received so far. Both connection strings of the module (lines 18-19) name the same
  database, so the asynchronous and the synchronous engine see the same table.
\<close>

record world =
  db_manager :: "DataBaseSessionManager option"
  table :: "row list"
  seq :: int
  log :: "event list"

definition emit :: "event list \<Rightarrow> world \<Rightarrow> world" where
  "emit es w = w\<lparr>log := log w @ es\<rparr>"

text \<open>
  How control leaves the \<^verbatim>\<open>yield\<close> of a session context manager: the body of the
  \<^verbatim>\<open>with\<close> block returned, it raised an exception, or the suspended generator was
  finalised (\<^verbatim>\<open>GeneratorExit\<close>, which is a \<^verbatim>\<open>BaseException\<close> and no
  \<^verbatim>\<open>Exception\<close>).
\<close>

datatype exit = Returned | Raised error | GeneratorExit

text \<open>
  \<^verbatim>\<open>DataBaseSessionManager.async_session\<close> after the \<^verbatim>\<open>yield\<close> (lines 257-262):
  commit on return, rollback and re-raise on an \<^verbatim>\<open>Exception\<close>; the sessionmaker's own
  \<^verbatim>\<open>async with\<close> closes the session on every path. The result is the calls the session
  receives and what propagates.
\<close>

fun async_session_exit :: "exit \<Rightarrow> event list \<times> exit" where
  "async_session_exit Returned = ([Commit, Close], Returned)"
| "async_session_exit (Raised e) = ([Rollback, Close], Raised e)"
| "async_session_exit GeneratorExit = ([Close], GeneratorExit)"

text \<open>
  \<^verbatim>\<open>DataBaseSessionManager.sync_session\<close> after the \<^verbatim>\<open>yield\<close> (lines 270-277): the
  same, with the close in the \<^verbatim>\<open>finally\<close> clause.
\<close>

fun sync_session_exit :: "exit \<Rightarrow> event list \<times> exit" where
  "sync_session_exit Returned = ([Commit, Close], Returned)"
| "sync_session_exit (Raised e) = ([Rollback, Close], Raised e)"
| "sync_session_exit GeneratorExit = ([Close], GeneratorExit)"

text \<open>
  Every operation of \<^verbatim>\<open>ORM\<close> has the shape
  \<^verbatim>\<open>async for db_session in self.model._async_session(): ...; return ...\<close>.
  The loop asks the generator \<^verbatim>\<open>_async_session\<close> for its first value, which runs it up
  to its \<^verbatim>\<open>yield\<close> (an exception raised there leaves the loop); then the body runs.
  The body always ends in \<^verbatim>\<open>return\<close> or in an exception, and either one leaves the loop
  without resuming the generator: a \<^verbatim>\<open>for\<close> loop never throws into its iterator. The
  generator is left suspended at its \<^verbatim>\<open>yield\<close> and is finalised when it is collected,
  which raises \<^verbatim>\<open>GeneratorExit\<close> at the \<^verbatim>\<open>yield\<close>; this passes through the
  \<^verbatim>\<open>async with\<close> of \<^verbatim>\<open>_async_session\<close> into the context manager. So the exit taken
  is \<open>GeneratorExit\<close> whatever the body did, and what the body returned or raised is the
  outcome of the operation. The finalisation is recorded where the operation ends: the
  synchronous generator is collected as soon as the loop is left, and for the asynchronous
  one the event loop schedules the finalisation then.
\<close>

definition async_for ::
  "(world \<Rightarrow> (error + 'a) \<times> world) \<Rightarrow> world \<Rightarrow> (error + 'a) \<times> world" where
  "async_for body w =
     (case BaseORM_async_session (db_manager w) of
        Inl e \<Rightarrow> (Inl e, w)
      | Inr s \<Rightarrow>
          (case body (emit [Open s] w) of
             (r, w') \<Rightarrow> (r, emit (fst (async_session_exit GeneratorExit)) w')))"

text \<open>The same shape over \<^verbatim>\<open>_sync_session\<close> (\<^verbatim>\<open>ORM.get\<close>, line 38).\<close>

definition sync_for ::
  "(world \<Rightarrow> (error + 'a) \<times> world) \<Rightarrow> world \<Rightarrow> (error + 'a) \<times> world" where
  "sync_for body w =
     (case BaseORM_sync_session (db_manager w) of
        Inl e \<Rightarrow> (Inl e, w)
      | Inr s \<Rightarrow>
          (case body (emit [Open s] w) of
             (r, w') \<Rightarrow> (r, emit (fst (sync_session_exit GeneratorExit)) w')))"

section \<open>The relational engine\<close>

text \<open>
  What the object-relational mapper, the driver and the database do with the calls of
  \<^verbatim>\<open>ORM\<close>. Building the condition \<^verbatim>\<open>getattr(model, attr) == value\<close> (line 105)
  gives an SQL expression for a column; for a collection it gives one when the value is
  \<open>None\<close> and raises otherwise; for any other attribute it is a comparison of Python
  objects and gives a truth value. The condition is kept as the pair of the attribute and
  the value.
\<close>

definition attr_eq :: "model \<Rightarrow> string \<Rightarrow> val \<Rightarrow> error + string \<times> val" where
  "attr_eq M attr v =
     (case kind_of M attr of
        Some Collection \<Rightarrow> (if v = VNone then Inr (attr, v) else Inl InvalidRequestError)
      | _ \<Rightarrow> Inr (attr, v))"

definition row_attr :: "row \<Rightarrow> string \<Rightarrow> val option" where
  "row_attr r k = (if k = ''id'' then Some (VInt (id_col r)) else map_of (cols r) k)"

definition related :: "row \<Rightarrow> string \<Rightarrow> int list" where
  "related r k = (case map_of (rels r) k of None \<Rightarrow> [] | Some ids \<Rightarrow> ids)"

text \<open>
  When a condition holds of a row: a column has the value (\<open>IS NULL\<close> for \<open>None\<close>); a
  collection compared with \<open>None\<close> is empty; a class attribute has the value, whatever
  the row.
\<close>

definition holds :: "model \<Rightarrow> row \<Rightarrow> string \<times> val \<Rightarrow> bool" where
  "holds M r c =
     (case c of
        (k, v) \<Rightarrow>
          (case kind_of M k of
             Some (Column _) \<Rightarrow> row_attr r k = Some v
           | Some Collection \<Rightarrow> v = VNone \<and> related r k = []
           | Some (ClassAttr cv) \<Rightarrow> cv = Some v
           | Some (Unwritable _) \<Rightarrow> False
           | Some (Internal _) \<Rightarrow> False
           | None \<Rightarrow> False))"

text \<open>The driver accepts the value bound for a column when it is of the column's type.\<close>

definition binds :: "model \<Rightarrow> string \<times> val \<Rightarrow> bool" where
  "binds M c =
     (case c of
        (k, v) \<Rightarrow> (case kind_of M k of Some (Column ty) \<Rightarrow> fits ty v | _ \<Rightarrow> True))"

text \<open>
  Executing \<^verbatim>\<open>select(model).where(*conds)\<close>: an error when a bound value is refused,
  and otherwise the rows of which every condition holds, in storage order.
\<close>

definition run_select :: "model \<Rightarrow> row list \<Rightarrow> kwargs \<Rightarrow> error + row list" where
  "run_select M tbl conds =
     (if list_all (binds M) conds
      then Inr (filter (\<lambda>r. list_all (holds M r) conds) tbl)
      else Inl DBAPIError)"

definition load :: "row \<Rightarrow> model_instance" where
  "load r = \<lparr>inst_id = id_col r, inst_cols = cols r, inst_dict = []\<rparr>"

definition scalars_first :: "row list \<Rightarrow> model_instance option" where
  "scalars_first rs = (case rs of [] \<Rightarrow> None | r # _ \<Rightarrow> Some (load r))"

definition scalars_all :: "row list \<Rightarrow> model_instance list" where
  "scalars_all rs = map load rs"

text \<open>
  \<^verbatim>\<open>session.get(model, pk)\<close> on a fresh session: the row with that primary key, and an
  error for a key outside the range of the column.
\<close>

definition session_get :: "world \<Rightarrow> int \<Rightarrow> error + row option" where
  "session_get w pk =
     (if in_range pk then Inr (find (\<lambda>r. id_col r = pk) (table w)) else Inl DBAPIError)"

text \<open>Reading an attribute of an instance.\<close>

definition getattr :: "model_instance \<Rightarrow> string \<Rightarrow> val option" where
  "getattr i k =
     (if k = ''id'' then Some (VInt (inst_id i))
      else (case map_of (inst_cols i) k of
              Some v \<Rightarrow> Some v
            | None \<Rightarrow> map_of (inst_dict i) k))"

text \<open>
  The error of the mapper's next use of an object, when one of the plain attributes set
  on it has overwritten the mapper's own state.
\<close>

fun internal_error :: "model \<Rightarrow> kwargs \<Rightarrow> error option" where
  "internal_error M [] = None"
| "internal_error M ((k, v) # d) =
     (case kind_of M k of
        Some (Internal e) \<Rightarrow> Some e
      | _ \<Rightarrow> internal_error M d)"

text \<open>
  \<^verbatim>\<open>setattr(instance, key, value)\<close>. A column (the primary key among them) takes any
  value, which is checked only when it is written to the database. A collection takes
  only a collection, which no value is. Both are set through the mapper, which uses its
  state on the instance first. An attribute that cannot be written raises its error. Any
  other name, an attribute of the class or not, becomes a plain attribute of the Python
  object.
\<close>

definition setattr :: "model \<Rightarrow> transient \<Rightarrow> string \<Rightarrow> val \<Rightarrow> error + transient" where
  "setattr M t k v =
     (case kind_of M k of
        Some (Column _) \<Rightarrow>
          (case internal_error M (t_dict t) of
             Some e \<Rightarrow> Inl e
           | None \<Rightarrow>
               Inr (if k = ''id'' then t\<lparr>t_id := v\<rparr>
                    else t\<lparr>t_cols := AList.update k v (t_cols t)\<rparr>))
      | Some Collection \<Rightarrow>
          (case internal_error M (t_dict t) of
             Some e \<Rightarrow> Inl e
           | None \<Rightarrow> Inl (TypeError ''Incompatible collection type''))
      | Some (Unwritable e) \<Rightarrow> Inl e
      | Some (ClassAttr _) \<Rightarrow> Inr (t\<lparr>t_dict := AList.update k v (t_dict t)\<rparr>)
      | Some (Internal _) \<Rightarrow> Inr (t\<lparr>t_dict := AList.update k v (t_dict t)\<rparr>)
      | None \<Rightarrow> Inr (t\<lparr>t_dict := AList.update k v (t_dict t)\<rparr>))"

text \<open>The loop of \<^verbatim>\<open>ORM.update\<close> (lines 48-49); it stops at the first error.\<close>

fun setattr_loop :: "model \<Rightarrow> kwargs \<Rightarrow> transient \<Rightarrow> error + transient" where
  "setattr_loop M [] t = Inr t"
| "setattr_loop M ((k, v) # rest) t =
     (case setattr M t k v of
        Inl e \<Rightarrow> Inl e
      | Inr t' \<Rightarrow> setattr_loop M rest t')"

text \<open>
  \<^verbatim>\<open>self.model(**kwargs)\<close>: the declarative constructor sets each keyword that is an
  attribute of the class and raises \<^verbatim>\<open>TypeError\<close> on the first one that is not.
\<close>

fun construct_loop :: "model \<Rightarrow> kwargs \<Rightarrow> transient \<Rightarrow> error + transient" where
  "construct_loop M [] t = Inr t"
| "construct_loop M ((k, v) # rest) t =
     (if hasattr M k
      then (case setattr M t k v of
              Inl e \<Rightarrow> Inl e
            | Inr t' \<Rightarrow> construct_loop M rest t')
      else Inl (TypeError k))"

definition construct :: "model \<Rightarrow> kwargs \<Rightarrow> error + transient" where
  "construct M kw = construct_loop M kw \<lparr>t_id = VNone, t_cols = [], t_dict = []\<rparr>"

text \<open>
  The row written for an object: every mapped column, \<open>NULL\<close> where nothing was set, and
  the given related rows.
\<close>

definition stored :: "model \<Rightarrow> int \<Rightarrow> transient \<Rightarrow> (string \<times> int list) list \<Rightarrow> row" where
  "stored M n t rs =
     \<lparr>id_col = n,
      cols = map (\<lambda>c. (c, case map_of (t_cols t) c of None \<Rightarrow> VNone | Some v \<Rightarrow> v))
               (columns M),
      rels = rs\<rparr>"

text \<open>
  The \<open>INSERT\<close> of a commit. The values set on the object are bound first. Without a
  primary key the identity sequence supplies one (and advances even when the insert
  fails); a primary key that is already there violates the constraint; a string or an
  integer out of range is no primary key. The new row has no related rows.
\<close>

definition insert_row :: "model \<Rightarrow> transient \<Rightarrow> world \<Rightarrow> (error + int) \<times> world" where
  "insert_row M t w =
     (if \<not> list_all (binds M) (t_cols t) then (Inl DBAPIError, w)
      else (case t_id t of
        VStr _ \<Rightarrow> (Inl DBAPIError, w)
      | VInt n \<Rightarrow>
          (if \<not> in_range n then (Inl DBAPIError, w)
           else if n \<in> id_col ` set (table w) then (Inl IntegrityError, w)
           else (Inr n, w\<lparr>table := table w @ [stored M n t []]\<rparr>))
      | VNone \<Rightarrow>
          (let n = seq w; w' = w\<lparr>seq := n + 1\<rparr>
           in if \<not> in_range n then (Inl DBAPIError, w)
              else if n \<in> id_col ` set (table w) then (Inl IntegrityError, w')
              else (Inr n, w'\<lparr>table := table w @ [stored M n t []]\<rparr>))))"

text \<open>
  The \<open>UPDATE\<close> of a commit, for the object loaded with primary key \<open>pk\<close> on which the
  items \<open>assigned\<close> were set: these are the values that are bound.
\<close>

definition update_row ::
  "model \<Rightarrow> int \<Rightarrow> kwargs \<Rightarrow> transient \<Rightarrow> world \<Rightarrow> (error + int) \<times> world" where
  "update_row M pk assigned t w =
     (if \<not> list_all (binds M) assigned then (Inl DBAPIError, w)
      else (case t_id t of
        VStr _ \<Rightarrow> (Inl DBAPIError, w)
      | VNone \<Rightarrow> (Inl IntegrityError, w)
      | VInt n \<Rightarrow>
          (if n \<noteq> pk \<and> n \<in> id_col ` set (table w) then (Inl IntegrityError, w)
           else (Inr n,
                 w\<lparr>table := map (\<lambda>r. if id_col r = pk then stored M n t (rels r) else r)
                                (table w)\<rparr>))))"

text \<open>\<^verbatim>\<open>session.refresh(instance)\<close>: the columns are read again; the rest of the object stays.\<close>

definition refresh :: "int \<Rightarrow> kwargs \<Rightarrow> world \<Rightarrow> (error + model_instance) \<times> world" where
  "refresh n d w =
     (case session_get w n of
        Inl e \<Rightarrow> (Inl e, emit [Refresh] w)
      | Inr None \<Rightarrow> (Inl InvalidRequestError, emit [Refresh] w)
      | Inr (Some r) \<Rightarrow>
          (Inr \<lparr>inst_id = id_col r, inst_cols = cols r, inst_dict = d\<rparr>, emit [Refresh] w))"

text \<open>
  The same on an object whose plain attributes were assigned by the caller: the mapper
  looks its state up on the instance first.
\<close>

definition refresh_assigned ::
  "model \<Rightarrow> int \<Rightarrow> kwargs \<Rightarrow> world \<Rightarrow> (error + model_instance) \<times> world" where
  "refresh_assigned M n d w =
     (case internal_error M d of
        Some e \<Rightarrow> (Inl e, emit [Refresh] w)
      | None \<Rightarrow> refresh n d w)"

text \<open>
  \<^verbatim>\<open>session.refresh(instance, attrs)\<close>: each name must be an attribute the mapper maps,
  a column or a collection.
\<close>

definition refresh_named ::
  "model \<Rightarrow> string list \<Rightarrow> int \<Rightarrow> kwargs \<Rightarrow> world \<Rightarrow> (error + model_instance) \<times> world"
  where
  "refresh_named M names n d w =
     (case find (\<lambda>a. case kind_of M a of
                        Some (Column _) \<Rightarrow> False
                      | Some Collection \<Rightarrow> False
                      | _ \<Rightarrow> True) names of
        Some a \<Rightarrow> (Inl (KeyError a), emit [Refresh] w)
      | None \<Rightarrow> refresh n d w)"

text \<open>
  \<^verbatim>\<open>session.merge(instance)\<close> copies what was set on the given object onto the
  persistent one; a column that was not set keeps its stored value.
\<close>

definition merge_cols :: "kwargs \<Rightarrow> kwargs \<Rightarrow> kwargs" where
  "merge_cols base new = fold (\<lambda>(k, v) al. AList.update k v al) new base"

section \<open>The query executor\<close>

text \<open>
  \<^verbatim>\<open>ORM._filter_conditions\<close> (lines 100-110). For each item in turn, a key that is an
  attribute of the model has its condition built and appended, which may raise, and a key
  that is not raises the \<^verbatim>\<open>AttributeError\<close>; \<^verbatim>\<open>filtered_fields or {}\<close> turns a
  missing mapping into the empty one.
\<close>

fun filter_conditions_loop :: "model \<Rightarrow> kwargs \<Rightarrow> kwargs \<Rightarrow> error + kwargs" where
  "filter_conditions_loop M [] conds = Inr conds"
| "filter_conditions_loop M ((attr, v) # rest) conds =
     (if hasattr M attr
      then (case attr_eq M attr v of
              Inl e \<Rightarrow> Inl e
            | Inr c \<Rightarrow> filter_conditions_loop M rest (conds @ [c]))
      else Inl (AttributeError
             (''Model '' @ model_name M @ '' does not have '' @ quoted attr @ '' attribute'')))"

definition filter_conditions :: "model \<Rightarrow> kwargs option \<Rightarrow> error + kwargs" where
  "filter_conditions M filtered_fields =
     filter_conditions_loop M (case filtered_fields of None \<Rightarrow> [] | Some f \<Rightarrow> f) []"

text \<open>\<^verbatim>\<open>ORM.create\<close> (lines 27-34).\<close>

definition ORM_create :: "model \<Rightarrow> kwargs \<Rightarrow> world \<Rightarrow> (error + model_instance) \<times> world" where
  "ORM_create M kw =
     async_for (\<lambda>w.
       case construct M kw of
         Inl e \<Rightarrow> (Inl e, w)
       | Inr t \<Rightarrow>
           (case insert_row M t (emit [Add, Commit] w) of
              (Inl e, w1) \<Rightarrow> (Inl e, w1)
            | (Inr n, w1) \<Rightarrow> refresh n (t_dict t) w1))"

text \<open>\<^verbatim>\<open>ORM.get\<close> (lines 36-40), the one operation over \<^verbatim>\<open>_sync_session\<close>.\<close>

definition ORM_get :: "model \<Rightarrow> int \<Rightarrow> world \<Rightarrow> (error + model_instance option) \<times> world" where
  "ORM_get M pk =
     sync_for (\<lambda>w.
       let conds = [(''id'', VInt pk)];
           w1 = emit [Execute (Select conds)] w
       in case run_select M (table w1) conds of
            Inl e \<Rightarrow> (Inl e, w1)
          | Inr rs \<Rightarrow> (Inr (scalars_first rs), w1))"

text \<open>\<^verbatim>\<open>ORM.update\<close> (lines 42-52).\<close>

definition ORM_update ::
  "model \<Rightarrow> int \<Rightarrow> kwargs \<Rightarrow> world \<Rightarrow> (error + model_instance option) \<times> world" where
  "ORM_update M pk kw =
     async_for (\<lambda>w.
       let w1 = emit [Get] w in
       case session_get w1 pk of
         Inl e \<Rightarrow> (Inl e, w1)
       | Inr None \<Rightarrow> (Inr None, w1)
       | Inr (Some r) \<Rightarrow>
           (case setattr_loop M kw \<lparr>t_id = VInt (id_col r), t_cols = cols r, t_dict = []\<rparr> of
              Inl e \<Rightarrow> (Inl e, w1)
            | Inr t \<Rightarrow>
                (case update_row M pk kw t (emit [Commit] w1) of
                   (Inl e, w2) \<Rightarrow> (Inl e, w2)
                 | (Inr n, w2) \<Rightarrow>
                     (case refresh_assigned M n (t_dict t) w2 of
                        (Inl e, w3) \<Rightarrow> (Inl e, w3)
                      | (Inr i, w3) \<Rightarrow> (Inr (Some i), w3)))))"

text \<open>
  \<^verbatim>\<open>ORM.delete\<close> (lines 54-62). The rows that referred to the deleted one are
  detached from it, as a relation without a cascade has it.
\<close>

definition ORM_delete :: "model \<Rightarrow> int \<Rightarrow> world \<Rightarrow> (error + bool) \<times> world" where
  "ORM_delete M pk =
     async_for (\<lambda>w.
       let w1 = emit [Get] w in
       case session_get w1 pk of
         Inl e \<Rightarrow> (Inl e, w1)
       | Inr None \<Rightarrow> (Inr False, w1)
       | Inr (Some r) \<Rightarrow>
           (Inr True,
            (emit [Delete, Commit] w1)\<lparr>table := filter (\<lambda>r. id_col r \<noteq> pk) (table w1)\<rparr>))"

text \<open>\<^verbatim>\<open>ORM.all\<close> (lines 64-69).\<close>

definition ORM_all :: "model \<Rightarrow> world \<Rightarrow> (error + model_instance list) \<times> world" where
  "ORM_all M =
     async_for (\<lambda>w.
       let w1 = emit [Execute (Select [])] w
       in case run_select M (table w1) [] of
            Inl e \<Rightarrow> (Inl e, w1)
          | Inr rs \<Rightarrow> (Inr (scalars_all rs), w1))"

text \<open>\<^verbatim>\<open>ORM.filter\<close> (lines 71-76).\<close>

definition ORM_filter :: "model \<Rightarrow> kwargs \<Rightarrow> world \<Rightarrow> (error + model_instance list) \<times> world" where
  "ORM_filter M filters =
     async_for (\<lambda>w.
       case filter_conditions M (Some filters) of
         Inl e \<Rightarrow> (Inl e, w)
       | Inr conds \<Rightarrow>
           (let w1 = emit [Execute (Select conds)] w
            in case run_select M (table w1) conds of
                 Inl e \<Rightarrow> (Inl e, w1)
               | Inr rs \<Rightarrow> (Inr (scalars_all rs), w1)))"

text \<open>\<^verbatim>\<open>ORM.first\<close> (lines 78-83).\<close>

definition ORM_first ::
  "model \<Rightarrow> kwargs \<Rightarrow> world \<Rightarrow> (error + model_instance option) \<times> world" where
  "ORM_first M filters =
     async_for (\<lambda>w.
       case filter_conditions M (Some filters) of
         Inl e \<Rightarrow> (Inl e, w)
       | Inr conds \<Rightarrow>
           (let w1 = emit [Execute (Select conds)] w
            in case run_select M (table w1) conds of
                 Inl e \<Rightarrow> (Inl e, w1)
               | Inr rs \<Rightarrow> (Inr (scalars_first rs), w1)))"

text \<open>\<^verbatim>\<open>ORM.count\<close> (lines 85-89).\<close>

definition ORM_count :: "model \<Rightarrow> world \<Rightarrow> (error + int) \<times> world" where
  "ORM_count M =
     async_for (\<lambda>w.
       let w1 = emit [Execute SelectCount] w
       in (Inr (int (length (table w1))), w1))"

text \<open>\<^verbatim>\<open>ORM.exists\<close> (lines 91-93).\<close>

definition ORM_exists :: "model \<Rightarrow> kwargs \<Rightarrow> world \<Rightarrow> (error + bool) \<times> world" where
  "ORM_exists M filters w =
     (case ORM_first M filters w of
        (Inl e, w') \<Rightarrow> (Inl e, w')
      | (Inr r, w') \<Rightarrow> (Inr (r \<noteq> None), w'))"

text \<open>
  \<^verbatim>\<open>ORM.select_related\<close> (lines 112-127). The relation names are checked before the
  session is acquired; building the message of that error reads \<^verbatim>\<open>self.__name__\<close> on
  the \<^verbatim>\<open>ORM\<close> object, which has no such attribute, so the error that leaves is the
  \<^verbatim>\<open>AttributeError\<close> of that read.
\<close>

definition ORM_select_related ::
  "model \<Rightarrow> string list option \<Rightarrow> kwargs \<Rightarrow> world \<Rightarrow> (error + model_instance option) \<times> world"
  where
  "ORM_select_related M attrs kw w =
     (let attrs' = (case attrs of None \<Rightarrow> [] | Some a \<Rightarrow> a) in
      case find (\<lambda>attr. \<not> hasattr M attr) attrs' of
        Some attr \<Rightarrow>
          (Inl (AttributeError
             (quoted ''ORM'' @ '' object has no attribute '' @ quoted ''__name__'')), w)
      | None \<Rightarrow>
          async_for (\<lambda>w.
            case filter_conditions M (Some kw) of
              Inl e \<Rightarrow> (Inl e, w)
            | Inr conds \<Rightarrow>
                (let w1 = emit [Execute (Select conds)] w in
                 case run_select M (table w1) conds of
                   Inl e \<Rightarrow> (Inl e, w1)
                 | Inr rs \<Rightarrow>
                     (case scalars_first rs of
                        None \<Rightarrow> (Inr None, w1)
                      | Some i \<Rightarrow>
                          (case refresh_named M attrs' (inst_id i) (inst_dict i) w1 of
                             (Inl e, w2) \<Rightarrow> (Inl e, w2)
                           | (Inr i', w2) \<Rightarrow> (Inr (Some i'), w2))))) w)"

text \<open>
  \<^verbatim>\<open>BaseORM.save\<close> (lines 190-197): the object is merged into the session, which
  updates the row with its primary key when there is one and inserts a row otherwise.
\<close>

definition BaseORM_save :: "model \<Rightarrow> transient \<Rightarrow> world \<Rightarrow> (error + model_instance) \<times> world" where
  "BaseORM_save M self =
     async_for (\<lambda>w.
       let w1 = emit [Merge] w in
       case (case t_id self of
               VInt n \<Rightarrow> session_get w1 n
             | VNone \<Rightarrow> Inr None
             | VStr _ \<Rightarrow> Inl DBAPIError) of
         Inl e \<Rightarrow> (Inl e, w1)
       | Inr found \<Rightarrow>
           (case (case found of
                    Some r \<Rightarrow>
                      update_row M (id_col r) (t_cols self)
                        \<lparr>t_id = t_id self, t_cols = merge_cols (cols r) (t_cols self),
                         t_dict = []\<rparr>
                        (emit [Commit] w1)
                  | None \<Rightarrow> insert_row M self (emit [Commit] w1)) of
              (Inl e, w2) \<Rightarrow> (Inl e, w2)
            | (Inr n, w2) \<Rightarrow> refresh n [] w2))"

section \<open>Observations on a state\<close>

text \<open>
  The manager registered with the entity base class has both of its sessionmakers, as it
  has from its construction until it is closed.
\<close>

definition initialized :: "world \<Rightarrow> bool" where
  "initialized w =
     (case db_manager w of
        None \<Rightarrow> False
      | Some m \<Rightarrow> async_sessionmaker m \<noteq> None \<and> sync_sessionmaker m \<noteq> None)"



fun opened :: "event list \<Rightarrow> flavor list" where
  "opened [] = []"
| "opened (Open f # es) = f # opened es"
| "opened (_ # es) = opened es"

definition is_AttributeError :: "error + 'a \<Rightarrow> bool" where
  "is_AttributeError r = (case r of Inl (AttributeError _) \<Rightarrow> True | _ \<Rightarrow> False)"



text \<open>
  Every condition of a predicate set can be built: no collection is compared with a value
  other than \<open>None\<close>.
\<close>

definition comparable :: "model \<Rightarrow> kwargs \<Rightarrow> bool" where
  "comparable M preds =
     list_all (\<lambda>(k, v). case kind_of M k of Some Collection \<Rightarrow> v = VNone | _ \<Rightarrow> True) preds"

text \<open>
  Every item of a field mapping can be assigned and written: a column gets a value of its
  type, and no key is a collection, an attribute that cannot be written or a name of the
  mapper's own.
\<close>

definition writable :: "model \<Rightarrow> kwargs \<Rightarrow> bool" where
  "writable M kw =
     list_all (\<lambda>(k, v). case kind_of M k of
                          None \<Rightarrow> True
                        | Some (Column ty) \<Rightarrow> fits ty v
                        | Some (ClassAttr _) \<Rightarrow> True
                        | Some Collection \<Rightarrow> False
                        | Some (Unwritable _) \<Rightarrow> False
                        | Some (Internal _) \<Rightarrow> False) kw"

section \<open>A concrete entity type and state\<close>

text \<open>
  The \<^verbatim>\<open>User\<close> entity of \<^verbatim>\<open>app/users\<close>, with a \<^verbatim>\<open>name\<close> column, the
  \<^verbatim>\<open>posts\<close> relation that \<^verbatim>\<open>routes.py\<close> loads, and some of what it inherits:
  the method \<^verbatim>\<open>save\<close>, the class attribute \<^verbatim>\<open>_orm_instance\<close>, the slot
  \<^verbatim>\<open>__weakref__\<close> and the mapper's \<^verbatim>\<open>_sa_instance_state\<close>. Then the state of a process right after the module has built and
  registered its manager (lines 281-282), on an empty table.
\<close>

definition User :: model where
  "User =
     \<lparr>model_name = ''User'',
      attributes = [(''name'', Column String), (''posts'', Collection),
               (''save'', ClassAttr None), (''_orm_instance'', ClassAttr (Some VNone)),
               (''__weakref__'',
                Unwritable (AttributeError ''attribute __weakref__ is not writable'')),
               (''_sa_instance_state'',
                Internal (AttributeError ''int object has no attribute key''))]\<rparr>"

definition fresh_world :: world where
  "fresh_world =
     \<lparr>db_manager = Some (DataBaseSessionManager_init ''async'' ''sync''),
      table = [], seq = 1, log = []\<rparr>"

text \<open>A state with one stored user, who has no posts.\<close>

definition one_user :: world where
  "one_user =
     \<lparr>db_manager = Some (DataBaseSessionManager_init ''async'' ''sync''),
      table = [\<lparr>id_col = 1, cols = [(''name'', VStr ''a'')], rels = []\<rparr>],
      seq = 2, log = []\<rparr>"

text \<open>
  A valid field mapping for \<^verbatim>\<open>create\<close>: a dictionary (no key twice) from mapped
  columns to values, where a value given for the primary key is an integer.
\<close>

definition valid_fields :: "model \<Rightarrow> kwargs \<Rightarrow> bool" where
  "valid_fields M F \<longleftrightarrow>
     distinct (map fst F) \<and>
     list_all (\<lambda>(k, v). if k = ''id'' then (case v of VInt _ \<Rightarrow> True | _ \<Rightarrow> False)
                        else k \<in> set (columns M)) F"

text \<open>Every item of a field mapping can be read back from the instance.\<close>

definition agrees :: "model_instance \<Rightarrow> kwargs \<Rightarrow> bool" where
  "agrees e F = list_all (\<lambda>(k, v). getattr e k = Some v) F"

text \<open>
  A sequence of \<^verbatim>\<open>create\<close> and \<^verbatim>\<open>delete\<close> calls, run in order. The result counts
  the \<^verbatim>\<open>create\<close> calls that returned an instance and the \<^verbatim>\<open>delete\<close> calls that
  returned \<open>True\<close>; a call that raised or returned \<open>False\<close> counts for nothing.
\<close>

datatype call = CallCreate kwargs | CallDelete int

fun run_calls :: "model \<Rightarrow> call list \<Rightarrow> world \<Rightarrow> (nat \<times> nat) \<times> world" where
  "run_calls M [] w = ((0, 0), w)"
| "run_calls M (CallCreate kw # cs) w =
     (case ORM_create M kw w of
        (r, w1) \<Rightarrow>
          (case run_calls M cs w1 of
             ((n, d), w2) \<Rightarrow> ((case r of Inr _ \<Rightarrow> Suc n | Inl _ \<Rightarrow> n, d), w2)))"
| "run_calls M (CallDelete pk # cs) w =
     (case ORM_delete M pk w of
        (r, w1) \<Rightarrow>
          (case run_calls M cs w1 of
             ((n, d), w2) \<Rightarrow> ((n, if r = Inr True then Suc d else d), w2)))"

section \<open>Session acquisition on an uninitialised or closed manager\<close>

lemma close_init:
  "close (DataBaseSessionManager_init a s) =
     \<lparr>async_engine = None, async_sessionmaker = None,
      sync_engine = None, sync_sessionmaker = None\<rparr>"
  by (simp add: close_def DataBaseSessionManager_init_def)

lemma close_closed:
  "close \<lparr>async_engine = None, async_sessionmaker = None,
          sync_engine = None, sync_sessionmaker = None\<rparr> =
     \<lparr>async_engine = None, async_sessionmaker = None,
      sync_engine = None, sync_sessionmaker = None\<rparr>"
  by (simp add: close_def)

lemma close_funpow_init:
  "(close ^^ Suc n) (DataBaseSessionManager_init a s) =
     \<lparr>async_engine = None, async_sessionmaker = None,
      sync_engine = None, sync_sessionmaker = None\<rparr>"
  by (induction n) (simp_all add: close_init close_closed)

text \<open>
  Claim C3. Acquiring a session, asynchronous or synchronous, fails with the
  uninitialised-manager error when no manager has been registered with the entity base
  class, and when the registered manager has been closed (once or more often) since it
  was constructed.
\<close>

theorem acquisition_uninitialized:
  "fails_uninitialized (BaseORM_async_session None)
   \<and> fails_uninitialized (BaseORM_sync_session None)
   \<and> fails_uninitialized (async_session ((close ^^ Suc n) (DataBaseSessionManager_init a s)))
   \<and> fails_uninitialized (sync_session ((close ^^ Suc n) (DataBaseSessionManager_init a s)))
   \<and> fails_uninitialized
        (BaseORM_async_session (Some ((close ^^ Suc n) (DataBaseSessionManager_init a s))))
   \<and> fails_uninitialized
        (BaseORM_sync_session (Some ((close ^^ Suc n) (DataBaseSessionManager_init a s))))"
  unfolding close_funpow_init
  by (simp add: fails_uninitialized_def UninitializedError_def BaseORM_async_session_def
      BaseORM_sync_session_def async_session_def sync_session_def)

section \<open>Helper facts\<close>

lemma initialized_fresh_world: "initialized fresh_world"
  by (simp add: initialized_def fresh_world_def DataBaseSessionManager_init_def)

lemma initialized_one_user: "initialized one_user"
  by (simp add: initialized_def one_user_def DataBaseSessionManager_init_def)

lemma initialized_async:
  "initialized w \<Longrightarrow> \<exists>s. BaseORM_async_session (db_manager w) = Inr s"
  by (auto simp: initialized_def BaseORM_async_session_def async_session_def split: option.splits)

lemma initialized_sync:
  "initialized w \<Longrightarrow> \<exists>s. BaseORM_sync_session (db_manager w) = Inr s"
  by (auto simp: initialized_def BaseORM_sync_session_def sync_session_def split: option.splits)

lemma initialized_cong:
  "db_manager w' = db_manager w \<Longrightarrow> initialized w' = initialized w"
  by (simp add: initialized_def)

lemma async_for_Inr:
  "BaseORM_async_session (db_manager w) = Inr f \<Longrightarrow>
   async_for body w = (fst (body (emit [Open f] w)), emit [Close] (snd (body (emit [Open f] w))))"
  by (simp add: async_for_def split: prod.splits)

lemma sync_for_Inr:
  "BaseORM_sync_session (db_manager w) = Inr f \<Longrightarrow>
   sync_for body w = (fst (body (emit [Open f] w)), emit [Close] (snd (body (emit [Open f] w))))"
  by (simp add: sync_for_def split: prod.splits)


lemma attr_eq_comparable:
  "(case kind_of M a of Some Collection \<Rightarrow> v = VNone | _ \<Rightarrow> True) \<Longrightarrow> attr_eq M a v = Inr (a, v)"
  by (auto simp: attr_eq_def split: option.splits attr_kind.splits)















section \<open>Unknown predicate keys\<close>




section \<open>Frame facts of the engine and the session scope\<close>

lemma opened_append: "opened (xs @ ys) = opened xs @ opened ys"
  by (induction xs rule: opened.induct) simp_all

lemma insert_row_frame:
  "insert_row M t w = (r, w') \<Longrightarrow> log w' = log w \<and> db_manager w' = db_manager w"
  by (auto simp: insert_row_def Let_def split: val.splits if_splits)

lemma update_row_frame:
  "update_row M pk a t w = (r, w') \<Longrightarrow> log w' = log w \<and> db_manager w' = db_manager w \<and> seq w' = seq w"
  by (auto simp: update_row_def split: val.splits if_splits)

lemma refresh_frame:
  "refresh n d w = (r, w') \<Longrightarrow>
   log w' = log w @ [Refresh] \<and> db_manager w' = db_manager w \<and> table w' = table w \<and> seq w' = seq w"
  by (auto simp: refresh_def emit_def split: option.splits sum.splits)

lemma log_refresh: "log (snd (refresh n d w)) = log w @ [Refresh]"
  by (simp add: refresh_def emit_def split: option.splits sum.splits)

lemma log_refresh_assigned: "log (snd (refresh_assigned M n d w)) = log w @ [Refresh]"
  by (simp add: refresh_assigned_def log_refresh emit_def split: option.splits)

lemma log_refresh_named: "log (snd (refresh_named M names n d w)) = log w @ [Refresh]"
  by (simp add: refresh_named_def log_refresh emit_def split: option.splits)

lemma refresh_assigned_frame:
  "refresh_assigned M n d w = (r, w') \<Longrightarrow>
   log w' = log w @ [Refresh] \<and> db_manager w' = db_manager w \<and> table w' = table w \<and> seq w' = seq w"
  using refresh_frame[of n d w r w']
  by (auto simp: refresh_assigned_def emit_def split: option.splits)

lemma refresh_named_frame:
  "refresh_named M names n d w = (r, w') \<Longrightarrow>
   log w' = log w @ [Refresh] \<and> db_manager w' = db_manager w \<and> table w' = table w \<and> seq w' = seq w"
  using refresh_frame[of n d w r w']
  by (auto simp: refresh_named_def emit_def split: option.splits)

lemma init_async:
  "db_manager w = Some (DataBaseSessionManager_init a s) \<Longrightarrow>
   BaseORM_async_session (db_manager w) = Inr Async"
  by (simp add: BaseORM_async_session_def async_session_def DataBaseSessionManager_init_def)

lemma init_sync:
  "db_manager w = Some (DataBaseSessionManager_init a s) \<Longrightarrow>
   BaseORM_sync_session (db_manager w) = Inr Sync"
  by (simp add: BaseORM_sync_session_def sync_session_def DataBaseSessionManager_init_def)

lemma opened_create:
  "BaseORM_async_session (db_manager w) = Inr f \<Longrightarrow>
   opened (log (snd (ORM_create M kw w))) = opened (log w) @ [f]"
  by (auto simp: ORM_create_def async_for_Inr emit_def opened_append log_refresh
      split: sum.splits prod.splits dest!: insert_row_frame refresh_frame)

lemma opened_get:
  "BaseORM_sync_session (db_manager w) = Inr f \<Longrightarrow>
   opened (log (snd (ORM_get M pk w))) = opened (log w) @ [f]"
  by (simp add: ORM_get_def sync_for_Inr emit_def opened_append log_refresh Let_def
      split: sum.splits)

lemma opened_update:
  "BaseORM_async_session (db_manager w) = Inr f \<Longrightarrow>
   opened (log (snd (ORM_update M pk kw w))) = opened (log w) @ [f]"
  by (auto simp: ORM_update_def async_for_Inr emit_def opened_append log_refresh_assigned Let_def
      split: sum.splits prod.splits option.splits dest!: update_row_frame refresh_assigned_frame)

lemma opened_delete:
  "BaseORM_async_session (db_manager w) = Inr f \<Longrightarrow>
   opened (log (snd (ORM_delete M pk w))) = opened (log w) @ [f]"
  by (auto simp: ORM_delete_def async_for_Inr emit_def opened_append log_refresh Let_def
      split: option.splits sum.splits)

lemma opened_all:
  "BaseORM_async_session (db_manager w) = Inr f \<Longrightarrow>
   opened (log (snd (ORM_all M w))) = opened (log w) @ [f]"
  by (simp add: ORM_all_def async_for_Inr emit_def opened_append log_refresh Let_def
      split: sum.splits)

lemma opened_filter:
  "BaseORM_async_session (db_manager w) = Inr f \<Longrightarrow>
   opened (log (snd (ORM_filter M kw w))) = opened (log w) @ [f]"
  by (auto simp: ORM_filter_def async_for_Inr emit_def opened_append log_refresh Let_def split: sum.splits)

lemma opened_first:
  "BaseORM_async_session (db_manager w) = Inr f \<Longrightarrow>
   opened (log (snd (ORM_first M kw w))) = opened (log w) @ [f]"
  by (auto simp: ORM_first_def async_for_Inr emit_def opened_append log_refresh Let_def split: sum.splits)

lemma opened_count:
  "BaseORM_async_session (db_manager w) = Inr f \<Longrightarrow>
   opened (log (snd (ORM_count M w))) = opened (log w) @ [f]"
  by (simp add: ORM_count_def async_for_Inr emit_def opened_append log_refresh Let_def)

lemma opened_exists:
  "BaseORM_async_session (db_manager w) = Inr f \<Longrightarrow>
   opened (log (snd (ORM_exists M kw w))) = opened (log w) @ [f]"
  using opened_first[of w f M kw]
  by (auto simp: ORM_exists_def split: prod.splits sum.splits)

lemma opened_select_related:
  "BaseORM_async_session (db_manager w) = Inr f \<Longrightarrow>
   opened (log (snd (ORM_select_related M attrs kw w))) =
     opened (log w) @
       (if find (\<lambda>attr. \<not> hasattr M attr) (case attrs of None \<Rightarrow> [] | Some a \<Rightarrow> a) = None
        then [f] else [])"
  by (auto simp: ORM_select_related_def async_for_Inr emit_def opened_append log_refresh_named Let_def
      split: sum.splits prod.splits option.splits dest!: refresh_named_frame)

lemma opened_save:
  "BaseORM_async_session (db_manager w) = Inr f \<Longrightarrow>
   opened (log (snd (BaseORM_save M self w))) = opened (log w) @ [f]"
  by (auto simp: BaseORM_save_def async_for_Inr emit_def opened_append log_refresh Let_def
      split: sum.splits prod.splits option.splits
      dest!: update_row_frame insert_row_frame refresh_frame)


section \<open>Which session each operation acquires\<close>

text \<open>
  Claim C9. With a manager as its constructor builds it, \<^verbatim>\<open>get\<close> opens exactly one
  session and it is a synchronous one; \<^verbatim>\<open>create\<close>, \<^verbatim>\<open>update\<close>, \<^verbatim>\<open>delete\<close>,
  \<^verbatim>\<open>all\<close>, \<^verbatim>\<open>filter\<close>, \<^verbatim>\<open>first\<close>, \<^verbatim>\<open>count\<close>, \<^verbatim>\<open>exists\<close> and \<^verbatim>\<open>save\<close>
  open exactly one session and it is an asynchronous one; \<^verbatim>\<open>select_related\<close> opens
  one asynchronous session once its relation names have passed the check, and none
  otherwise.
\<close>

theorem session_flavours:
  assumes "db_manager w = Some (DataBaseSessionManager_init a s)"
  shows "opened (log (snd (ORM_get M pk w))) = opened (log w) @ [Sync]
       \<and> opened (log (snd (ORM_create M kw w))) = opened (log w) @ [Async]
       \<and> opened (log (snd (ORM_update M pk kw w))) = opened (log w) @ [Async]
       \<and> opened (log (snd (ORM_delete M pk w))) = opened (log w) @ [Async]
       \<and> opened (log (snd (ORM_all M w))) = opened (log w) @ [Async]
       \<and> opened (log (snd (ORM_filter M kw w))) = opened (log w) @ [Async]
       \<and> opened (log (snd (ORM_first M kw w))) = opened (log w) @ [Async]
       \<and> opened (log (snd (ORM_count M w))) = opened (log w) @ [Async]
       \<and> opened (log (snd (ORM_exists M kw w))) = opened (log w) @ [Async]
       \<and> opened (log (snd (ORM_select_related M attrs kw w))) =
           opened (log w) @
             (if find (\<lambda>attr. \<not> hasattr M attr) (case attrs of None \<Rightarrow> [] | Some a \<Rightarrow> a) = None
              then [Async] else [])
       \<and> opened (log (snd (BaseORM_save M self w))) = opened (log w) @ [Async]"
  using init_async[OF assms] init_sync[OF assms]
  by (simp only: opened_get opened_create opened_update opened_delete opened_all opened_filter
      opened_first opened_count opened_exists opened_select_related opened_save simp_thms)

theorem session_flavours_witness:
  "opened (log (snd (ORM_get User 1 fresh_world))) = [Sync]
       \<and> opened (log (snd (ORM_create User [(''name'', VStr ''a'')] fresh_world))) = [Async]
       \<and> opened (log (snd (ORM_update User 1 [(''name'', VStr ''a'')] fresh_world))) = [Async]
       \<and> opened (log (snd (ORM_delete User 1 fresh_world))) = [Async]
       \<and> opened (log (snd (ORM_all User fresh_world))) = [Async]
       \<and> opened (log (snd (ORM_filter User [(''name'', VStr ''a'')] fresh_world))) = [Async]
       \<and> opened (log (snd (ORM_first User [(''name'', VStr ''a'')] fresh_world))) = [Async]
       \<and> opened (log (snd (ORM_count User fresh_world))) = [Async]
       \<and> opened (log (snd (ORM_exists User [(''name'', VStr ''a'')] fresh_world))) = [Async]
       \<and> opened (log (snd (ORM_select_related User (Some [''posts'']) [(''name'', VStr ''a'')] fresh_world))) = [Async]
       \<and> opened (log (snd (BaseORM_save User \<lparr>t_id = VNone, t_cols = [(''name'', VStr ''a'')], t_dict = []\<rparr> fresh_world))) = [Async]"
  using session_flavours[of fresh_world "''async''" "''sync''" User 1 "[(''name'', VStr ''a'')]"
      "Some [''posts'']" "\<lparr>t_id = VNone, t_cols = [(''name'', VStr ''a'')], t_dict = []\<rparr>"]
  by (simp add: fresh_world_def hasattr_def kind_of_def User_def)

section \<open>The empty predicate set\<close>

text \<open>
  Claim C10. \<^verbatim>\<open>filter\<close> with an empty predicate set is \<^verbatim>\<open>all\<close>: the same result and
  the same effect, in every state. An empty and a missing predicate mapping both give
  the empty list of conditions.
\<close>

theorem filter_empty_is_all:
  "ORM_filter M [] w = ORM_all M w
   \<and> filter_conditions M None = Inr [] \<and> filter_conditions M (Some []) = Inr []"
  by (simp add: ORM_filter_def ORM_all_def filter_conditions_def)

section \<open>Absence\<close>

lemma filter_conditions_loop_known:
  "list_all (\<lambda>(k, v). hasattr M k) preds \<Longrightarrow> comparable M preds \<Longrightarrow>
   filter_conditions_loop M preds acc = Inr (acc @ preds)"
proof (induction preds arbitrary: acc)
  case Nil
  then show ?case by simp
next
  case (Cons x xs)
  obtain a v where x: "x = (a, v)" by (cases x)
  from Cons.prems x have h: "hasattr M a" and hs: "list_all (\<lambda>(k, v). hasattr M k) xs"
    and c: "case kind_of M a of Some Collection \<Rightarrow> v = VNone | _ \<Rightarrow> True"
    and cs: "comparable M xs"
    by (simp_all add: comparable_def)
  from Cons.IH[OF hs cs, of "acc @ [(a, v)]"] attr_eq_comparable[OF c] h x
  show ?case by simp
qed

lemma filter_conditions_known:
  "list_all (\<lambda>(k, v). hasattr M k) preds \<Longrightarrow> comparable M preds \<Longrightarrow>
   filter_conditions M (Some preds) = Inr preds"
  by (simp add: filter_conditions_def filter_conditions_loop_known)

lemma run_select_id:
  "in_range pk \<Longrightarrow>
   run_select M tbl [(''id'', VInt pk)] = Inr (filter (\<lambda>r. id_col r = pk) tbl)"
  by (simp add: run_select_def binds_def holds_def kind_of_def row_attr_def)

lemma session_get_None:
  "in_range pk \<Longrightarrow> session_get w pk = Inr None \<longleftrightarrow> pk \<notin> id_col ` set (table w)"
  by (auto simp: session_get_def find_None_iff)

lemma session_get_Some:
  assumes "in_range pk" and "pk \<in> id_col ` set (table w)"
  shows "\<exists>r. session_get w pk = Inr (Some r) \<and> id_col r = pk \<and> r \<in> set (table w)"
proof (cases "find (\<lambda>r. id_col r = pk) (table w)")
  case None
  with assms(2) show ?thesis by (auto simp: find_None_iff)
next
  case (Some r)
  then have "id_col r = pk \<and> r \<in> set (table w)"
    by (auto simp: find_Some_iff)
  with Some assms(1) show ?thesis by (simp add: session_get_def)
qed

lemma session_get_emit [simp]: "session_get (emit es w) pk = session_get w pk"
  by (simp add: session_get_def emit_def)

lemma table_emit [simp]: "table (emit es w) = table w"
  by (simp add: emit_def)

lemma seq_emit [simp]: "seq (emit es w) = seq w"
  by (simp add: emit_def)

lemma db_manager_emit [simp]: "db_manager (emit es w) = db_manager w"
  by (simp add: emit_def)

lemma get_absent:
  assumes "initialized w" "in_range pk" "pk \<notin> id_col ` set (table w)"
  shows "fst (ORM_get M pk w) = Inr None"
proof -
  obtain f where "BaseORM_sync_session (db_manager w) = Inr f"
    using initialized_sync[OF assms(1)] by blast
  moreover have "filter (\<lambda>r. id_col r = pk) (table w) = []"
    using assms(3) by (auto simp: filter_empty_conv)
  ultimately show ?thesis
    by (simp add: ORM_get_def sync_for_Inr Let_def run_select_id[OF assms(2)] scalars_first_def)
qed

lemma update_absent:
  assumes "initialized w" "in_range pk" "pk \<notin> id_col ` set (table w)"
  shows "fst (ORM_update M pk kw w) = Inr None"
proof -
  obtain f where "BaseORM_async_session (db_manager w) = Inr f"
    using initialized_async[OF assms(1)] by blast
  moreover have "session_get w pk = Inr None"
    using assms(3) by (simp add: session_get_None[OF assms(2)])
  ultimately show ?thesis
    by (simp add: ORM_update_def async_for_Inr Let_def)
qed

lemma first_absent:
  assumes "initialized w" "list_all (\<lambda>(k, v). hasattr M k) preds" "comparable M preds"
    "run_select M (table w) preds = Inr []"
  shows "fst (ORM_first M preds w) = Inr None"
proof -
  obtain f where "BaseORM_async_session (db_manager w) = Inr f"
    using initialized_async[OF assms(1)] by blast
  then show ?thesis
    by (simp add: ORM_first_def async_for_Inr Let_def filter_conditions_known[OF assms(2,3)]
        assms(4) scalars_first_def)
qed

lemma select_related_absent:
  assumes "initialized w" "list_all (\<lambda>(k, v). hasattr M k) preds" "comparable M preds"
    "run_select M (table w) preds = Inr []"
    "list_all (hasattr M) (case attrs of None \<Rightarrow> [] | Some a \<Rightarrow> a)"
  shows "fst (ORM_select_related M attrs preds w) = Inr None"
proof -
  obtain f where "BaseORM_async_session (db_manager w) = Inr f"
    using initialized_async[OF assms(1)] by blast
  moreover have "find (\<lambda>attr. \<not> hasattr M attr) (case attrs of None \<Rightarrow> [] | Some a \<Rightarrow> a) = None"
    using assms(5) by (cases attrs) (auto simp: find_None_iff list_all_iff)
  ultimately show ?thesis
    by (simp add: ORM_select_related_def async_for_Inr Let_def
        filter_conditions_known[OF assms(2,3)] assms(4) scalars_first_def)
qed

text \<open>
  Claim C4, as the code has it. On an initialised manager, \<^verbatim>\<open>get\<close> and \<^verbatim>\<open>update\<close>
  with a primary key within the range of the \<^verbatim>\<open>id\<close> column that no row has return
  \<open>None\<close>; \<^verbatim>\<open>first\<close> and \<^verbatim>\<open>select_related\<close> return \<open>None\<close> for predicates on
  attributes of the entity type whose conditions can be built and whose query the database
  accepts and answers with no row (for \<^verbatim>\<open>select_related\<close> the relation names are
  attributes as well). None of them raises.
\<close>

theorem absent_in_range_returns_None:
  assumes "initialized w"
    and "in_range pk"
    and "pk \<notin> id_col ` set (table w)"
    and "list_all (\<lambda>(k, v). hasattr M k) preds"
    and "comparable M preds"
    and "run_select M (table w) preds = Inr []"
    and "list_all (hasattr M) (case attrs of None \<Rightarrow> [] | Some a \<Rightarrow> a)"
  shows "fst (ORM_get M pk w) = Inr None
       \<and> fst (ORM_update M pk kw w) = Inr None
       \<and> fst (ORM_first M preds w) = Inr None
       \<and> fst (ORM_select_related M attrs preds w) = Inr None"
  using get_absent[OF assms(1,2,3)] update_absent[OF assms(1,2,3)]
    first_absent[OF assms(1,4,5,6)] select_related_absent[OF assms(1,4,5,6,7)] by simp

theorem absent_in_range_returns_None_witness:
  "fst (ORM_get User 7 one_user) = Inr None
       \<and> fst (ORM_update User 7 [(''name'', VStr ''b'')] one_user) = Inr None
       \<and> fst (ORM_first User [(''name'', VStr ''z'')] one_user) = Inr None
       \<and> fst (ORM_select_related User (Some [''posts'']) [(''name'', VStr ''z'')] one_user) = Inr None"
  using absent_in_range_returns_None[of one_user 7 User "[(''name'', VStr ''z'')]" "Some [''posts'']"
      "[(''name'', VStr ''b'')]"]
  by (simp add: initialized_one_user)
    (simp add: one_user_def User_def hasattr_def kind_of_def comparable_def in_range_def
      run_select_def binds_def holds_def row_attr_def)

text \<open>
  Claim C4, as stated, fails. No user has the primary key \<open>2147483648\<close>, and \<^verbatim>\<open>get\<close>
  of it raises, since the key is outside the range of the column. No user has the name
  \<open>3\<close>, and \<^verbatim>\<open>first(name=3)\<close> raises, since the value is not of the column's type.
\<close>

theorem absent_counterexample:
  "2147483648 \<notin> id_col ` set (table one_user)
   \<and> fst (ORM_get User 2147483648 one_user) = Inl DBAPIError
   \<and> filter (\<lambda>r. row_attr r ''name'' = Some (VInt 3)) (table one_user) = []
   \<and> fst (ORM_first User [(''name'', VInt 3)] one_user) = Inl DBAPIError"
  by (simp add: ORM_get_def ORM_first_def sync_for_def async_for_def BaseORM_sync_session_def
      BaseORM_async_session_def sync_session_def async_session_def one_user_def
      DataBaseSessionManager_init_def filter_conditions_def hasattr_def attr_eq_def
      run_select_def binds_def kind_of_def in_range_def User_def emit_def Let_def row_attr_def)

section \<open>Delete\<close>

lemma delete_existing:
  assumes "initialized w" "in_range pk" "pk \<in> id_col ` set (table w)"
  shows "fst (ORM_delete M pk w) = Inr True
       \<and> table (snd (ORM_delete M pk w)) = filter (\<lambda>r. id_col r \<noteq> pk) (table w)
       \<and> seq (snd (ORM_delete M pk w)) = seq w
       \<and> db_manager (snd (ORM_delete M pk w)) = db_manager w"
proof -
  obtain f where "BaseORM_async_session (db_manager w) = Inr f"
    using initialized_async[OF assms(1)] by blast
  moreover obtain r where "session_get w pk = Inr (Some r)"
    using session_get_Some[OF assms(2,3)] by blast
  ultimately show ?thesis
    by (simp add: ORM_delete_def async_for_Inr Let_def)
qed

lemma delete_absent:
  assumes "initialized w" "in_range pk" "pk \<notin> id_col ` set (table w)"
  shows "fst (ORM_delete M pk w) = Inr False
       \<and> table (snd (ORM_delete M pk w)) = table w
       \<and> seq (snd (ORM_delete M pk w)) = seq w
       \<and> db_manager (snd (ORM_delete M pk w)) = db_manager w"
proof -
  obtain f where "BaseORM_async_session (db_manager w) = Inr f"
    using initialized_async[OF assms(1)] by blast
  moreover have "session_get w pk = Inr None"
    using assms(3) by (simp add: session_get_None[OF assms(2)])
  ultimately show ?thesis
    by (simp add: ORM_delete_def async_for_Inr Let_def)
qed

text \<open>
  Claim C7, as the code has it. On an initialised manager and for a primary key within
  the range of the \<^verbatim>\<open>id\<close> column: \<^verbatim>\<open>delete\<close> of a key that a row has returns
  \<open>True\<close> and a \<^verbatim>\<open>get\<close> of that key afterwards returns \<open>None\<close>; \<^verbatim>\<open>delete\<close> of a
  key that no row has returns \<open>False\<close> and leaves the table and its identity sequence as
  they were.
\<close>

theorem delete_in_range_then_get:
  assumes "initialized w" and "in_range pk"
  shows "(pk \<in> id_col ` set (table w) \<longrightarrow>
            fst (ORM_delete M pk w) = Inr True
          \<and> fst (ORM_get M pk (snd (ORM_delete M pk w))) = Inr None)
       \<and> (pk \<notin> id_col ` set (table w) \<longrightarrow>
            fst (ORM_delete M pk w) = Inr False
          \<and> table (snd (ORM_delete M pk w)) = table w
          \<and> seq (snd (ORM_delete M pk w)) = seq w)"
proof (cases "pk \<in> id_col ` set (table w)")
  case True
  note d = delete_existing[OF assms True, of M]
  have i: "initialized (snd (ORM_delete M pk w))"
    using d assms initialized_cong[of "snd (ORM_delete M pk w)" w] by simp
  have "pk \<notin> id_col ` set (table (snd (ORM_delete M pk w)))"
    using d by auto
  from get_absent[OF i assms(2) this] d True show ?thesis by simp
next
  case False
  with delete_absent[OF assms False, of M] show ?thesis by simp
qed

theorem delete_in_range_then_get_witness:
  "fst (ORM_delete User 1 one_user) = Inr True
   \<and> fst (ORM_get User 1 (snd (ORM_delete User 1 one_user))) = Inr None
   \<and> fst (ORM_delete User 7 one_user) = Inr False
   \<and> table (snd (ORM_delete User 7 one_user)) = table one_user
   \<and> seq (snd (ORM_delete User 7 one_user)) = seq one_user"
  using delete_in_range_then_get[OF initialized_one_user, of 1 User]
    delete_in_range_then_get[OF initialized_one_user, of 7 User]
  by (simp add: one_user_def in_range_def)

text \<open>
  Claim C7, as stated, fails: no user has the primary key \<open>2147483648\<close>, and
  \<^verbatim>\<open>delete\<close> of it raises instead of returning \<open>False\<close>, since the key is outside the
  range of the column.
\<close>

theorem delete_counterexample:
  "2147483648 \<notin> id_col ` set (table one_user)
   \<and> fst (ORM_delete User 2147483648 one_user) = Inl DBAPIError"
  by (simp add: ORM_delete_def async_for_def BaseORM_async_session_def async_session_def
      one_user_def DataBaseSessionManager_init_def session_get_def in_range_def emit_def
      Let_def)

section \<open>Create, then get\<close>

lemma valid_fields_item:
  assumes "valid_fields M F" "(k, v) \<in> set F"
  shows "if k = ''id'' then (\<exists>m. v = VInt m) else k \<in> set (columns M)"
proof -
  from assms have "(\<lambda>(k, v). if k = ''id'' then (case v of VInt _ \<Rightarrow> True | _ \<Rightarrow> False)
                        else k \<in> set (columns M)) (k, v)"
    unfolding valid_fields_def list_all_iff by blast
  then show ?thesis by (cases v) (simp_all split: if_splits)
qed

lemma columns_kind:
  "k \<in> set (columns M) \<Longrightarrow> k \<noteq> ''id'' \<and> (\<exists>ty. kind_of M k = Some (Column ty))"
  by (auto simp: columns_def split: option.splits attr_kind.splits)

lemma setattr_col:
  "setattr M t k v = Inr t' \<Longrightarrow> k \<in> set (columns M) \<Longrightarrow>
   t' = t\<lparr>t_cols := AList.update k v (t_cols t)\<rparr>"
  using columns_kind[of k M] by (auto simp: setattr_def split: option.splits)

lemma setattr_id: "setattr M t ''id'' v = Inr t' \<Longrightarrow> t' = t\<lparr>t_id := v\<rparr>"
  by (auto simp: setattr_def kind_of_def split: option.splits)

lemma setattr_unknown:
  "kind_of M k = None \<Longrightarrow> setattr M t k v = Inr (t\<lparr>t_dict := AList.update k v (t_dict t)\<rparr>)"
  by (simp add: setattr_def)

lemma setattr_other:
  "setattr M t k' v' = Inr t' \<Longrightarrow> k \<noteq> k' \<Longrightarrow>
   map_of (t_cols t') k = map_of (t_cols t) k \<and> map_of (t_dict t') k = map_of (t_dict t) k"
  by (auto simp: setattr_def update_conv' split: option.splits attr_kind.splits if_splits)

lemma setattr_other_id:
  "setattr M t k' v' = Inr t' \<Longrightarrow> k' \<noteq> ''id'' \<Longrightarrow> t_id t' = t_id t"
  by (auto simp: setattr_def split: option.splits attr_kind.splits if_splits)

lemma construct_loop_setattr_loop:
  "construct_loop M F t0 = Inr t \<Longrightarrow> setattr_loop M F t0 = Inr t"
  by (induction F arbitrary: t0) (auto split: if_splits sum.splits)

lemma setattr_loop_other:
  "setattr_loop M F t0 = Inr t \<Longrightarrow> k \<notin> fst ` set F \<Longrightarrow>
   map_of (t_cols t) k = map_of (t_cols t0) k \<and> map_of (t_dict t) k = map_of (t_dict t0) k"
proof (induction F arbitrary: t0)
  case Nil
  then show ?case by simp
next
  case (Cons x F)
  obtain k' v' where x: "x = (k', v')" by (cases x)
  from Cons.prems x obtain t1 where s: "setattr M t0 k' v' = Inr t1"
    and l: "setattr_loop M F t1 = Inr t"
    by (auto split: sum.splits)
  from Cons.prems(2) x have "k \<noteq> k'" "k \<notin> fst ` set F" by auto
  with Cons.IH[OF l] setattr_other[OF s] show ?case by simp
qed

lemma setattr_loop_other_id:
  "setattr_loop M F t0 = Inr t \<Longrightarrow> ''id'' \<notin> fst ` set F \<Longrightarrow> t_id t = t_id t0"
proof (induction F arbitrary: t0)
  case Nil
  then show ?case by simp
next
  case (Cons x F)
  obtain k' v' where x: "x = (k', v')" by (cases x)
  from Cons.prems x obtain t1 where s: "setattr M t0 k' v' = Inr t1"
    and l: "setattr_loop M F t1 = Inr t"
    by (auto split: sum.splits)
  from Cons.prems(2) x have "k' \<noteq> ''id''" "''id'' \<notin> fst ` set F" by auto
  with Cons.IH[OF l] setattr_other_id[OF s] show ?case by simp
qed

lemma setattr_loop_col:
  "setattr_loop M F t0 = Inr t \<Longrightarrow> (k, v) \<in> set F \<Longrightarrow> distinct (map fst F) \<Longrightarrow>
   k \<in> set (columns M) \<Longrightarrow> map_of (t_cols t) k = Some v"
proof (induction F arbitrary: t0)
  case Nil
  then show ?case by simp
next
  case (Cons x F)
  obtain k' v' where x: "x = (k', v')" by (cases x)
  from Cons.prems(1) x obtain t1 where s: "setattr M t0 k' v' = Inr t1"
    and l: "setattr_loop M F t1 = Inr t"
    by (auto split: sum.splits)
  show ?case
  proof (cases "x = (k, v)")
    case True
    with Cons.prems(3) have "k \<notin> fst ` set F" by auto
    from setattr_loop_other[OF l this] s True x setattr_col[OF _ Cons.prems(4), of t0 v t1]
    show ?thesis by (auto simp: update_conv')
  next
    case False
    with Cons.prems have "(k, v) \<in> set F" "distinct (map fst F)" by auto
    from Cons.IH[OF l this Cons.prems(4)] show ?thesis .
  qed
qed

lemma setattr_loop_id:
  "setattr_loop M F t0 = Inr t \<Longrightarrow> (''id'', v) \<in> set F \<Longrightarrow> distinct (map fst F) \<Longrightarrow>
   t_id t = v"
proof (induction F arbitrary: t0)
  case Nil
  then show ?case by simp
next
  case (Cons x F)
  obtain k' v' where x: "x = (k', v')" by (cases x)
  from Cons.prems(1) x obtain t1 where s: "setattr M t0 k' v' = Inr t1"
    and l: "setattr_loop M F t1 = Inr t"
    by (auto split: sum.splits)
  show ?case
  proof (cases "x = (''id'', v)")
    case True
    with Cons.prems(3) have "''id'' \<notin> fst ` set F" by auto
    from setattr_loop_other_id[OF l this] s True x setattr_id[of M t0 v t1]
    show ?thesis by auto
  next
    case False
    with Cons.prems have "(''id'', v) \<in> set F" "distinct (map fst F)" by auto
    from Cons.IH[OF l this] show ?thesis .
  qed
qed

lemma setattr_loop_dict:
  "setattr_loop M F t0 = Inr t \<Longrightarrow> (k, v) \<in> set F \<Longrightarrow> distinct (map fst F) \<Longrightarrow>
   kind_of M k = None \<Longrightarrow> map_of (t_dict t) k = Some v"
proof (induction F arbitrary: t0)
  case Nil
  then show ?case by simp
next
  case (Cons x F)
  obtain k' v' where x: "x = (k', v')" by (cases x)
  from Cons.prems(1) x obtain t1 where s: "setattr M t0 k' v' = Inr t1"
    and l: "setattr_loop M F t1 = Inr t"
    by (auto split: sum.splits)
  show ?case
  proof (cases "x = (k, v)")
    case True
    with Cons.prems(3) have "k \<notin> fst ` set F" by auto
    from setattr_loop_other[OF l this] s True x setattr_unknown[OF Cons.prems(4), of t0 v]
    show ?thesis by (auto simp: update_conv')
  next
    case False
    with Cons.prems have "(k, v) \<in> set F" "distinct (map fst F)" by auto
    from Cons.IH[OF l this Cons.prems(4)] show ?thesis .
  qed
qed

lemma insert_row_Inr:
  "insert_row M t w = (Inr n, w1) \<Longrightarrow>
   n \<notin> id_col ` set (table w) \<and> table w1 = table w @ [stored M n t []]
   \<and> (t_id t = VInt n \<or> t_id t = VNone) \<and> db_manager w1 = db_manager w \<and> in_range n"
  by (auto simp: insert_row_def Let_def split: val.splits if_splits)

lemma insert_row_Inl:
  "insert_row M t w = (Inl e, w1) \<Longrightarrow> table w1 = table w \<and> db_manager w1 = db_manager w"
  by (auto simp: insert_row_def Let_def split: val.splits if_splits)

lemma find_append_new:
  "n \<notin> id_col ` set tbl \<Longrightarrow> id_col r = n \<Longrightarrow> find (\<lambda>r. id_col r = n) (tbl @ [r]) = Some r"
  by (induction tbl) auto

lemma filter_append_new:
  "n \<notin> id_col ` set tbl \<Longrightarrow> id_col r = n \<Longrightarrow> filter (\<lambda>r. id_col r = n) (tbl @ [r]) = [r]"
  by (induction tbl) auto

lemma id_col_stored [simp]: "id_col (stored M n t rs) = n"
  by (simp add: stored_def)

lemma session_get_inserted:
  assumes "insert_row M t w = (Inr n, w1)"
  shows "session_get w1 n = Inr (Some (stored M n t []))"
  using insert_row_Inr[OF assms] find_append_new[of n "table w" "stored M n t []"]
  by (simp add: session_get_def)

lemma create_Inr:
  assumes "ORM_create M F w = (Inr i, w')"
  shows "\<exists>t n. construct M F = Inr t \<and> n \<notin> id_col ` set (table w)
          \<and> (t_id t = VInt n \<or> t_id t = VNone)
          \<and> table w' = table w @ [stored M n t []]
          \<and> i = \<lparr>inst_id = n, inst_cols = cols (stored M n t []), inst_dict = t_dict t\<rparr>
          \<and> db_manager w' = db_manager w \<and> in_range n"
proof -
  obtain f where f: "BaseORM_async_session (db_manager w) = Inr f"
    using assms by (cases "BaseORM_async_session (db_manager w)") (auto simp: ORM_create_def async_for_def)
  obtain t where t: "construct M F = Inr t"
    using assms f by (cases "construct M F") (auto simp: ORM_create_def async_for_Inr)
  obtain r w1 where ins: "insert_row M t (emit [Add, Commit] (emit [Open f] w)) = (r, w1)"
    by (cases "insert_row M t (emit [Add, Commit] (emit [Open f] w))")
  obtain n where n: "r = Inr n"
    using assms f t ins by (cases r) (auto simp: ORM_create_def async_for_Inr)
  note fr = insert_row_Inr[OF ins[unfolded n]]
  note sg = session_get_inserted[OF ins[unfolded n]]
  have "ORM_create M F w =
          (Inr \<lparr>inst_id = n, inst_cols = cols (stored M n t []), inst_dict = t_dict t\<rparr>,
           emit [Close] (emit [Refresh] w1))"
    using f t ins n sg by (simp add: ORM_create_def async_for_Inr refresh_def)
  with assms fr t show ?thesis by auto
qed

lemma map_of_stored:
  "map_of (cols (stored M n t rs)) k =
     (if k \<in> set (columns M)
      then Some (case map_of (t_cols t) k of None \<Rightarrow> VNone | Some v \<Rightarrow> v) else None)"
  by (simp add: stored_def map_of_map_restrict restrict_map_def)

text \<open>
  Claim C6. On an initialised manager, when \<^verbatim>\<open>create\<close> with a valid field mapping
  \<open>F\<close> returns an instance, \<^verbatim>\<open>get\<close> of that instance's primary key returns an
  entity on which every field of \<open>F\<close> has the value \<open>F\<close> gave it.
\<close>

theorem create_get_roundtrip:
  assumes "initialized w" and "valid_fields M F" and "ORM_create M F w = (Inr i, w')"
  shows "\<exists>e. fst (ORM_get M (inst_id i) w') = Inr (Some e) \<and> agrees e F"
proof -
  from create_Inr[OF assms(3)] obtain t n where
    t: "construct M F = Inr t" and n: "n \<notin> id_col ` set (table w)"
    and tid: "t_id t = VInt n \<or> t_id t = VNone"
    and tbl: "table w' = table w @ [stored M n t []]"
    and i: "i = \<lparr>inst_id = n, inst_cols = cols (stored M n t []), inst_dict = t_dict t\<rparr>"
    and mgr: "db_manager w' = db_manager w" and rng: "in_range n"
    by blast
  have tf: "setattr_loop M F \<lparr>t_id = VNone, t_cols = [], t_dict = []\<rparr> = Inr t"
    using t by (simp add: construct_def construct_loop_setattr_loop)
  have d: "distinct (map fst F)"
    using assms(2) by (simp add: valid_fields_def)
  obtain f where f: "BaseORM_sync_session (db_manager w') = Inr f"
    using initialized_sync[of w'] assms(1) mgr initialized_cong[of w' w] by auto
  have sel: "filter (\<lambda>r. id_col r = n) (table w') = [stored M n t []]"
    using filter_append_new[OF n, of "stored M n t []"] tbl by simp
  have g: "fst (ORM_get M (inst_id i) w') = Inr (Some (load (stored M n t [])))"
    using f sel i
    by (simp add: ORM_get_def sync_for_Inr Let_def run_select_id[OF rng] scalars_first_def)
  have "getattr (load (stored M n t [])) k = Some v" if kv: "(k, v) \<in> set F" for k v
  proof (cases "k = ''id''")
    case True
    with valid_fields_item[OF assms(2) kv] obtain m where m: "v = VInt m"
      by auto
    from setattr_loop_id[OF tf kv[unfolded True] d] have "t_id t = v" .
    with tid m have "m = n" by auto
    with True m show ?thesis by (simp add: getattr_def load_def stored_def)
  next
    case False
    with valid_fields_item[OF assms(2) kv] have c: "k \<in> set (columns M)"
      by simp
    from setattr_loop_col[OF tf kv d c] have "map_of (t_cols t) k = Some v" .
    with False c show ?thesis
      by (simp add: getattr_def load_def map_of_stored)
  qed
  then have "agrees (load (stored M n t [])) F"
    by (auto simp: agrees_def list_all_iff)
  with g show ?thesis by blast
qed

theorem create_get_roundtrip_witness:
  "\<exists>e. fst (ORM_get User 1 (snd (ORM_create User [(''name'', VStr ''a'')] fresh_world))) = Inr (Some e)
     \<and> agrees e [(''name'', VStr ''a'')]"
proof -
  have c: "ORM_create User [(''name'', VStr ''a'')] fresh_world =
      (Inr \<lparr>inst_id = 1, inst_cols = [(''name'', VStr ''a'')], inst_dict = []\<rparr>,
       snd (ORM_create User [(''name'', VStr ''a'')] fresh_world))"
    by (simp add: ORM_create_def async_for_def BaseORM_async_session_def async_session_def
        fresh_world_def DataBaseSessionManager_init_def construct_def hasattr_def User_def
        setattr_def insert_row_def emit_def Let_def refresh_def session_get_def stored_def
        kind_of_def binds_def in_range_def columns_def)
  have v: "valid_fields User [(''name'', VStr ''a'')]"
    by (simp add: valid_fields_def User_def columns_def kind_of_def)
  from create_get_roundtrip[OF initialized_fresh_world v c] show ?thesis by simp
qed

section \<open>Counting rows\<close>

lemma create_Inl:
  assumes "ORM_create M F w = (Inl e, w')"
  shows "table w' = table w \<and> db_manager w' = db_manager w"
proof (cases "BaseORM_async_session (db_manager w)")
  case (Inl x)
  with assms show ?thesis by (simp add: ORM_create_def async_for_def)
next
  case (Inr f)
  show ?thesis
  proof (cases "construct M F")
    case (Inl x)
    with assms Inr show ?thesis by (auto simp: ORM_create_def async_for_Inr)
  next
    case t: (Inr t)
    obtain r w1 where ins: "insert_row M t (emit [Add, Commit] (emit [Open f] w)) = (r, w1)"
      by (cases "insert_row M t (emit [Add, Commit] (emit [Open f] w))")
    show ?thesis
    proof (cases r)
      case (Inl x)
      with insert_row_Inl[OF ins[unfolded Inl]] assms Inr t ins show ?thesis
        by (auto simp: ORM_create_def async_for_Inr)
    next
      case n: (Inr n)
      note fr = insert_row_Inr[OF ins[unfolded n]]
      note sg = session_get_inserted[OF ins[unfolded n]]
      with assms Inr t ins n show ?thesis
        by (simp add: ORM_create_def async_for_Inr refresh_def)
    qed
  qed
qed

lemma find_id_Some:
  "find (\<lambda>r. id_col r = pk) tbl = Some r \<Longrightarrow> pk \<in> id_col ` set tbl"
  by (induction tbl) (auto split: if_splits)

lemma delete_frame:
  "db_manager (snd (ORM_delete M pk w)) = db_manager w
   \<and> table (snd (ORM_delete M pk w)) =
       (if fst (ORM_delete M pk w) = Inr True then filter (\<lambda>r. id_col r \<noteq> pk) (table w)
        else table w)
   \<and> (fst (ORM_delete M pk w) = Inr True \<longrightarrow> pk \<in> id_col ` set (table w))"
proof (cases "BaseORM_async_session (db_manager w)")
  case (Inl x)
  then show ?thesis by (simp add: ORM_delete_def async_for_def)
next
  case (Inr f)
  then show ?thesis
    by (auto simp: ORM_delete_def async_for_Inr Let_def session_get_def find_None_iff
        split: sum.splits option.splits if_splits dest: find_id_Some)
qed

lemma length_filter_distinct:
  "distinct (map id_col tbl) \<Longrightarrow> pk \<in> id_col ` set tbl \<Longrightarrow>
   Suc (length (filter (\<lambda>r. id_col r \<noteq> pk) tbl)) = length tbl"
proof (induction tbl)
  case Nil
  then show ?case by simp
next
  case (Cons r tbl)
  show ?case
  proof (cases "id_col r = pk")
    case True
    with Cons.prems have "pk \<notin> id_col ` set tbl" by auto
    then have "filter (\<lambda>r. id_col r \<noteq> pk) tbl = tbl"
      by (auto simp: filter_id_conv)
    with True show ?thesis by simp
  next
    case False
    with Cons show ?thesis by auto
  qed
qed

lemma run_calls_invariant:
  "distinct (map id_col (table w)) \<Longrightarrow> run_calls M cs w = ((n, d), w') \<Longrightarrow>
   distinct (map id_col (table w')) \<and> db_manager w' = db_manager w
   \<and> length (table w') + d = length (table w) + n"
proof (induction cs arbitrary: w n d w')
  case Nil
  then show ?case by simp
next
  case (Cons c cs)
  show ?case
  proof (cases c)
    case (CallCreate kw)
    obtain r w1 where c1: "ORM_create M kw w = (r, w1)" by (cases "ORM_create M kw w")
    obtain n1 d1 w2 where rest: "run_calls M cs w1 = ((n1, d1), w2)"
      by (cases "run_calls M cs w1") auto
    show ?thesis
    proof (cases r)
      case (Inl e)
      from create_Inl[OF c1[unfolded Inl]] have f: "table w1 = table w" "db_manager w1 = db_manager w"
        by simp_all
      with Cons.prems(1) have "distinct (map id_col (table w1))" by simp
      from Cons.IH[OF this rest] Cons.prems(2) CallCreate c1 rest Inl f show ?thesis
        by auto
    next
      case (Inr i)
      from create_Inr[OF c1[unfolded Inr]] obtain t m where
        m: "m \<notin> id_col ` set (table w)" and tbl: "table w1 = table w @ [stored M m t []]"
        and mgr: "db_manager w1 = db_manager w" by blast
      have "distinct (map id_col (table w1))"
        using Cons.prems(1) m tbl by simp
      from Cons.IH[OF this rest] Cons.prems(2) CallCreate c1 rest Inr tbl mgr show ?thesis
        by auto
    qed
  next
    case (CallDelete pk)
    obtain r w1 where c1: "ORM_delete M pk w = (r, w1)" by (cases "ORM_delete M pk w")
    obtain n1 d1 w2 where rest: "run_calls M cs w1 = ((n1, d1), w2)"
      by (cases "run_calls M cs w1") auto
    note fr = delete_frame[of M pk w, unfolded c1, simplified]
    show ?thesis
    proof (cases "r = Inr True")
      case True
      with fr have tbl: "table w1 = filter (\<lambda>r. id_col r \<noteq> pk) (table w)"
        and pk: "pk \<in> id_col ` set (table w)" and mgr: "db_manager w1 = db_manager w" by auto
      have "distinct (map id_col (table w1))"
        using Cons.prems(1) tbl by (simp add: distinct_map_filter)
      from Cons.IH[OF this rest] Cons.prems(2) CallDelete c1 rest True mgr
        length_filter_distinct[OF Cons.prems(1) pk] tbl
      show ?thesis by auto
    next
      case False
      with fr have f: "table w1 = table w" "db_manager w1 = db_manager w" by auto
      with Cons.prems(1) have "distinct (map id_col (table w1))" by simp
      from Cons.IH[OF this rest] Cons.prems(2) CallDelete c1 rest False f show ?thesis
        by auto
    qed
  qed
qed

lemma count_initialized:
  "initialized w \<Longrightarrow> fst (ORM_count M w) = Inr (int (length (table w)))"
  using initialized_async[of w]
  by (auto simp: ORM_count_def async_for_Inr Let_def)

text \<open>
  Claim C8. On an initialised manager and starting from an empty table, after any
  sequence of \<^verbatim>\<open>create\<close> and \<^verbatim>\<open>delete\<close> calls of which \<open>n\<close> creates succeeded
  and \<open>d\<close> deletes removed a row, \<open>d \<le> n\<close> and \<^verbatim>\<open>count\<close> returns \<open>n - d\<close>.
\<close>

theorem count_after_creates_and_deletes:
  assumes "initialized w" and "table w = []" and "run_calls M cs w = ((n, d), w')"
  shows "d \<le> n \<and> fst (ORM_count M w') = Inr (int n - int d)"
proof -
  have "distinct (map id_col (table w))" using assms(2) by simp
  from run_calls_invariant[OF this assms(3)] assms(2)
  have mgr: "db_manager w' = db_manager w" and len: "length (table w') + d = n" by simp_all
  have "initialized w'" using assms(1) mgr initialized_cong[of w' w] by simp
  from count_initialized[OF this, of M] len show ?thesis by auto
qed

theorem count_after_creates_and_deletes_witness:
  "(1::nat) \<le> 2 \<and>
   fst (ORM_count User
     (snd (run_calls User
        [CallCreate [(''name'', VStr ''a'')], CallCreate [(''name'', VStr ''b'')],
         CallDelete 1, CallDelete 7] fresh_world))) = Inr (int 2 - int 1)"
proof -
  have r: "run_calls User
        [CallCreate [(''name'', VStr ''a'')], CallCreate [(''name'', VStr ''b'')],
         CallDelete 1, CallDelete 7] fresh_world =
       ((2, 1), snd (run_calls User
        [CallCreate [(''name'', VStr ''a'')], CallCreate [(''name'', VStr ''b'')],
         CallDelete 1, CallDelete 7] fresh_world))"
    by (simp add: ORM_create_def ORM_delete_def async_for_def BaseORM_async_session_def
        async_session_def fresh_world_def DataBaseSessionManager_init_def construct_def
        hasattr_def User_def setattr_def insert_row_def emit_def Let_def refresh_def
        session_get_def stored_def kind_of_def binds_def in_range_def columns_def)
  have t: "table fresh_world = []" by (simp add: fresh_world_def)
  from count_after_creates_and_deletes[OF initialized_fresh_world t r] show ?thesis by simp
qed

section \<open>Update with a key that is no attribute\<close>

lemma internal_error_update:
  "internal_error M d = None \<Longrightarrow>
   (case kind_of M k of Some (Internal _) \<Rightarrow> False | _ \<Rightarrow> True) \<Longrightarrow>
   internal_error M (AList.update k v d) = None"
  by (induction d) (auto split: option.splits attr_kind.splits)

lemma writable_setattr:
  assumes "case kind_of M k of
             None \<Rightarrow> True
           | Some (Column ty) \<Rightarrow> fits ty v
           | Some (ClassAttr _) \<Rightarrow> True
           | Some Collection \<Rightarrow> False
           | Some (Unwritable _) \<Rightarrow> False
           | Some (Internal _) \<Rightarrow> False"
    and "internal_error M (t_dict t0) = None"
  shows "\<exists>t1. setattr M t0 k v = Inr t1 \<and> internal_error M (t_dict t1) = None"
proof (cases "kind_of M k")
  case None
  with assms(2) internal_error_update[of M "t_dict t0" k v] show ?thesis
    by (simp add: setattr_def)
next
  case (Some a)
  with assms internal_error_update[of M "t_dict t0" k v] show ?thesis
    by (cases a) (simp_all add: setattr_def)
qed

lemma writable_setattr_loop:
  "writable M kw \<Longrightarrow> internal_error M (t_dict t0) = None \<Longrightarrow>
   \<exists>t. setattr_loop M kw t0 = Inr t \<and> internal_error M (t_dict t) = None"
proof (induction kw arbitrary: t0)
  case Nil
  then show ?case by simp
next
  case (Cons x kw)
  obtain k v where x: "x = (k, v)" by (cases x)
  from Cons.prems(1) x have ws: "writable M kw"
    and wk: "case kind_of M k of
             None \<Rightarrow> True
           | Some (Column ty) \<Rightarrow> fits ty v
           | Some (ClassAttr _) \<Rightarrow> True
           | Some Collection \<Rightarrow> False
           | Some (Unwritable _) \<Rightarrow> False
           | Some (Internal _) \<Rightarrow> False"
    by (simp_all add: writable_def)
  from writable_setattr[OF wk Cons.prems(2)] obtain t1
    where s: "setattr M t0 k v = Inr t1" and i: "internal_error M (t_dict t1) = None"
    by blast
  from Cons.IH[OF ws i] s x show ?case by simp
qed

lemma writable_item:
  "writable M kw \<Longrightarrow> (k, v) \<in> set kw \<Longrightarrow>
   (case kind_of M k of Some (Internal _) \<Rightarrow> False | _ \<Rightarrow> True)"
proof (induction kw)
  case Nil
  then show ?case by simp
next
  case (Cons x kw)
  show ?case
  proof (cases "x = (k, v)")
    case True
    with Cons.prems(1) show ?thesis
      by (cases "kind_of M k") (auto simp: writable_def split: attr_kind.splits)
  next
    case False
    with Cons.prems have "writable M kw" "(k, v) \<in> set kw"
      by (simp_all add: writable_def)
    then show ?thesis by (rule Cons.IH)
  qed
qed

lemma writable_binds: "writable M kw \<Longrightarrow> list_all (binds M) kw"
  by (induction kw) (auto simp: writable_def binds_def split: option.splits attr_kind.splits)

lemma find_map_replace:
  "pk \<in> id_col ` set tbl \<Longrightarrow> (\<And>r. id_col (g r) = pk) \<Longrightarrow>
   \<exists>r0. find (\<lambda>r. id_col r = pk) (map (\<lambda>r. if id_col r = pk then g r else r) tbl)
          = Some (g r0)"
  by (induction tbl) auto

lemma update_unknown_key:
  assumes "initialized w" and "in_range pk" and "pk \<in> id_col ` set (table w)"
    and "distinct (map fst kw)" and "''id'' \<notin> fst ` set kw"
    and "(k, v) \<in> set kw" and "\<not> hasattr M k" and "writable M kw"
  shows "\<exists>i. fst (ORM_update M pk kw w) = Inr (Some i) \<and> inst_id i = pk
             \<and> getattr i k = Some v"
proof -
  obtain f where f: "BaseORM_async_session (db_manager w) = Inr f"
    using initialized_async[OF assms(1)] by blast
  obtain r where r: "session_get w pk = Inr (Some r)" and idr: "id_col r = pk"
    using session_get_Some[OF assms(2,3)] by blast
  define t0 where "t0 = \<lparr>t_id = VInt (id_col r), t_cols = cols r, t_dict = []\<rparr>"
  obtain t where t: "setattr_loop M kw t0 = Inr t" and ie: "internal_error M (t_dict t) = None"
    using writable_setattr_loop[OF assms(8), of t0] by (auto simp: t0_def)
  have tid: "t_id t = VInt pk"
    using setattr_loop_other_id[OF t assms(5)] idr by (simp add: t0_def)
  have kn: "kind_of M k = None"
    using assms(7) writable_item[OF assms(8,6)]
    by (auto simp: hasattr_def split: option.splits attr_kind.splits)
  have kid: "k \<noteq> ''id''"
    using kn by (auto simp: kind_of_def)
  have kc: "k \<notin> set (columns M)"
    using kn columns_kind[of k M] by auto
  have td: "map_of (t_dict t) k = Some v"
    by (rule setattr_loop_dict[OF t assms(6,4) kn])
  define w1 where "w1 = emit [Commit] (emit [Get] (emit [Open f] w))"
  define tbl' where
    "tbl' = map (\<lambda>r. if id_col r = pk then stored M pk t (rels r) else r) (table w)"
  have u: "update_row M pk kw t w1 = (Inr pk, w1\<lparr>table := tbl'\<rparr>)"
    using writable_binds[OF assms(8)] by (simp add: update_row_def tid tbl'_def w1_def)
  obtain r0 :: row where "find (\<lambda>r. id_col r = pk) tbl' = Some (stored M pk t (rels r0))"
    unfolding tbl'_def
    using find_map_replace[OF assms(3), of "\<lambda>r. stored M pk t (rels r)"] by auto
  then have rf: "refresh_assigned M pk (t_dict t) (w1\<lparr>table := tbl'\<rparr>) =
          (Inr \<lparr>inst_id = pk, inst_cols = cols (stored M pk t (rels r0)), inst_dict = t_dict t\<rparr>,
           emit [Refresh] (w1\<lparr>table := tbl'\<rparr>))"
    using assms(2) ie by (simp add: refresh_assigned_def refresh_def session_get_def)
  have "fst (ORM_update M pk kw w) =
          Inr (Some \<lparr>inst_id = pk, inst_cols = cols (stored M pk t (rels r0)),
                     inst_dict = t_dict t\<rparr>)"
    using f r t u rf
    by (simp add: ORM_update_def async_for_Inr Let_def t0_def[symmetric] w1_def[symmetric])
  moreover have "getattr \<lparr>inst_id = pk, inst_cols = cols (stored M pk t (rels r0)),
                          inst_dict = t_dict t\<rparr> k = Some v"
    using kid td kc by (simp add: getattr_def map_of_stored)
  ultimately show ?thesis by simp
qed

text \<open>
  Claim C2, as the code has it. On an initialised manager, for a primary key that a row
  has and a field mapping that does not assign \<^verbatim>\<open>id\<close> and whose items can all be
  assigned and written, a key that is no attribute of the entity type raises nothing: the
  call returns the instance, and the value can be read from the instance under that key.
\<close>

theorem update_unknown_key_is_plain_attribute:
  assumes "initialized w" and "in_range pk" and "pk \<in> id_col ` set (table w)"
    and "distinct (map fst kw)" and "''id'' \<notin> fst ` set kw"
    and "(k, v) \<in> set kw" and "\<not> hasattr M k" and "writable M kw"
  shows "\<exists>i. fst (ORM_update M pk kw w) = Inr (Some i) \<and> inst_id i = pk
             \<and> getattr i k = Some v"
  using update_unknown_key[OF assms] .

theorem update_unknown_key_is_plain_attribute_witness:
  "\<exists>i. fst (ORM_update User 1 [(''name'', VStr ''b''), (''nope'', VInt 3)] one_user)
           = Inr (Some i)
       \<and> inst_id i = 1 \<and> getattr i ''nope'' = Some (VInt 3)"
  using update_unknown_key_is_plain_attribute[of one_user 1
      "[(''name'', VStr ''b''), (''nope'', VInt 3)]" "''nope''" "VInt 3" User]
  by (simp add: initialized_one_user)
    (simp add: one_user_def User_def hasattr_def kind_of_def writable_def in_range_def)

text \<open>
  Claim C2, as stated, fails: the user with primary key \<open>1\<close> exists, \<^verbatim>\<open>nope\<close> is no
  attribute of \<^verbatim>\<open>User\<close>, and \<^verbatim>\<open>update(1, nope=3)\<close> returns the instance.
\<close>

theorem update_unknown_key_counterexample:
  "1 \<in> id_col ` set (table one_user) \<and> \<not> hasattr User ''nope''
   \<and> fst (ORM_update User 1 [(''nope'', VInt 3)] one_user) =
       Inr (Some \<lparr>inst_id = 1, inst_cols = [(''name'', VStr ''a'')],
                  inst_dict = [(''nope'', VInt 3)]\<rparr>)"
  by (simp add: ORM_update_def async_for_def BaseORM_async_session_def
        async_session_def one_user_def DataBaseSessionManager_init_def
        hasattr_def User_def setattr_def update_row_def emit_def Let_def refresh_def
        refresh_assigned_def session_get_def stored_def kind_of_def binds_def in_range_def
        columns_def)

section \<open>What a session receives\<close>

text \<open>
  Left by a \<^verbatim>\<open>with\<close> block, the two context managers commit on return and roll back
  and re-raise on an exception.
\<close>

lemma session_scope_contract:
  "async_session_exit Returned = ([Commit, Close], Returned)
   \<and> async_session_exit (Raised e) = ([Rollback, Close], Raised e)
   \<and> sync_session_exit Returned = ([Commit, Close], Returned)
   \<and> sync_session_exit (Raised e) = ([Rollback, Close], Raised e)"
  by simp

text \<open>
  Claim C5, evaluated. \<^verbatim>\<open>filter\<close> with an unknown key fails with the
  \<^verbatim>\<open>AttributeError\<close>, and its session was opened and closed and received no rollback.
  \<^verbatim>\<open>all\<close> and \<^verbatim>\<open>get\<close> succeed, and their sessions received the statement and were
  closed, and received no commit.
\<close>

theorem failure_and_read_leave_no_rollback_or_commit:
  "is_AttributeError (fst (ORM_filter User [(''nope'', VInt 3)] fresh_world))
   \<and> log (snd (ORM_filter User [(''nope'', VInt 3)] fresh_world)) = [Open Async, Close]
   \<and> fst (ORM_all User fresh_world) = Inr []
   \<and> log (snd (ORM_all User fresh_world)) = [Open Async, Execute (Select []), Close]
   \<and> fst (ORM_get User 1 fresh_world) = Inr None
   \<and> log (snd (ORM_get User 1 fresh_world)) =
       [Open Sync, Execute (Select [(''id'', VInt 1)]), Close]"
  by (simp add: ORM_filter_def ORM_all_def ORM_get_def async_for_def sync_for_def
        BaseORM_async_session_def BaseORM_sync_session_def async_session_def sync_session_def
        fresh_world_def DataBaseSessionManager_init_def filter_conditions_def
        hasattr_def User_def emit_def Let_def is_AttributeError_def run_select_def
        scalars_all_def scalars_first_def kind_of_def binds_def in_range_def holds_def
        attr_eq_def)


end
